theory Spec2Isabelle
  imports Complex_Main
begin

section \<open>Data model (types.ts)\<close>

text \<open>
  JavaScript numbers are modelled as mathematical reals: rounding, infinities and NaN
  of IEEE doubles are outside the model. Optional fields are \<open>option\<close> values.
\<close>

record Point =
  x :: real
  y :: real
  pressure :: "real option"
  time :: real
  pointerType :: "string option"

type_synonym Stroke = "Point list"

datatype ToolType = Pen | Pencil | Calligraphy

record DrawingOptions =
  color :: string
  minWidth :: real
  maxWidth :: real
  smoothing :: real
  streamline :: real
  tool :: ToolType

text \<open>
  The idiom \<^verbatim>\<open>p.pressure || 0.5\<close>: an absent pressure and the falsy number 0 both
  give the default.
\<close>

definition pressureOr :: "real option \<Rightarrow> real" where
  "pressureOr pr = (case pr of None \<Rightarrow> 0.5 | Some v \<Rightarrow> if v = 0 then 0.5 else v)"

section \<open>Geometry helpers (utils/geometry)\<close>

definition getDistance :: "Point \<Rightarrow> Point \<Rightarrow> real" where
  "getDistance p1 p2 = sqrt ((x p1 - x p2)\<^sup>2 + (y p1 - y p2)\<^sup>2)"

definition getVelocity :: "Point \<Rightarrow> Point \<Rightarrow> real" where
  "getVelocity p1 p2 =
     (let dist = getDistance p1 p2; t = time p2 - time p1
      in if t > 0 then dist / t else 0)"

definition lerp :: "real \<Rightarrow> real \<Rightarrow> real \<Rightarrow> real" where
  "lerp start stop t = start * (1 - t) + stop * t"

definition getMidPoint :: "Point \<Rightarrow> Point \<Rightarrow> Point" where
  "getMidPoint p1 p2 =
     \<lparr> x = x p1 + (x p2 - x p1) / 2,
       y = y p1 + (y p2 - y p1) / 2,
       pressure = Some (pressureOr (pressure p1)
                        + (pressureOr (pressure p2) - pressureOr (pressure p1)) / 2),
       time = time p1 + (time p2 - time p1) / 2,
       pointerType = pointerType p1 \<rparr>"

section \<open>Width model and curve renderer (SignaturePad.drawCurve)\<close>

text \<open>
  The local constant \<^verbatim>\<open>velocity\<close> of \<^verbatim>\<open>drawCurve\<close>, written
  \<^verbatim>\<open>dist / (p2.time - p1.time + 1)\<close> in both velocity-driven branches. The divisor
  is zero only when \<^verbatim>\<open>p2.time - p1.time = -1\<close>; theorems about the velocity assume
  time-ordered samples, where the divisor is at least 1.
\<close>

definition drawCurve_velocity :: "Point \<Rightarrow> Point \<Rightarrow> real" where
  "drawCurve_velocity p1 p2 = (let dist = getDistance p1 p2 in dist / (time p2 - time p1 + 1))"

text \<open>The tool-specific block of \<^verbatim>\<open>drawCurve\<close> that assigns \<^verbatim>\<open>targetWidth\<close>.\<close>

definition targetWidth :: "DrawingOptions \<Rightarrow> Point \<Rightarrow> Point \<Rightarrow> real" where
  "targetWidth options p1 p2 =
     (if tool options = Pencil then max 0.5 (maxWidth options * 0.4)
      else if tool options = Calligraphy then
        (let velocity = drawCurve_velocity p1 p2 in
         if pointerType p2 = Some ''pen'' then
           (let pr = pressureOr (pressure p2)
            in minWidth options + (maxWidth options * 1.5 - minWidth options) * pr\<^sup>2)
         else
           (let maxSpeed = 3.5;
                normalizedSpeed = min velocity maxSpeed / maxSpeed
            in maxWidth options * 1.5
               - normalizedSpeed * (maxWidth options * 1.5 - minWidth options * 0.5)))
      else
        (if pointerType p2 = Some ''pen'' then
           (let pr = pressureOr (pressure p2)
            in (minWidth options + (maxWidth options - minWidth options) * pr) * 1.1)
         else
           (let velocity = drawCurve_velocity p1 p2;
                maxSpeed = 2.5;
                normalizedSpeed = min velocity maxSpeed / maxSpeed
            in maxWidth options - normalizedSpeed * (maxWidth options - minWidth options))))"

definition alphaOf :: "DrawingOptions \<Rightarrow> real" where
  "alphaOf options = (if tool options = Pencil then 0.7 else 1.0)"

definition smoothingFactor :: "DrawingOptions \<Rightarrow> real" where
  "smoothingFactor options = (if tool options = Pencil then 0.2 else 0.6)"

subsection \<open>Stroke colour\<close>

text \<open>
  \<^verbatim>\<open>parseInt(s, 16)\<close> of the language standard, on strings of code units below 256:
  leading white space (tab, line feed, vertical tab, form feed, carriage return, space and
  no-break space) is dropped, then an optional sign and an optional \<^verbatim>\<open>0x\<close> prefix,
  the longest prefix of hexadecimal digits is read, and no digit at all gives NaN
  (\<open>None\<close>).
\<close>

definition hexDigit :: "char \<Rightarrow> nat option" where
  "hexDigit c =
     (let n = (of_char c :: nat) in
      if 48 \<le> n \<and> n \<le> 57 then Some (n - 48)
      else if 65 \<le> n \<and> n \<le> 70 then Some (n - 55)
      else if 97 \<le> n \<and> n \<le> 102 then Some (n - 87)
      else None)"

definition isWhiteSpace :: "char \<Rightarrow> bool" where
  "isWhiteSpace c =
     (let n = (of_char c :: nat) in (9 \<le> n \<and> n \<le> 13) \<or> n = 32 \<or> n = 160)"

definition parseInt16 :: "string \<Rightarrow> int option" where
  "parseInt16 str =
     (let s1 = dropWhile isWhiteSpace str;
          sign = (if take 1 s1 = ''-'' then - 1 else 1);
          s2 = (if take 1 s1 = ''-'' \<or> take 1 s1 = ''+'' then drop 1 s1 else s1);
          s3 = (if take 2 s2 = ''0x'' \<or> take 2 s2 = ''0X'' then drop 2 s2 else s2);
          z = takeWhile (\<lambda>c. hexDigit c \<noteq> None) s3
      in if z = [] then None
         else Some (sign * int (foldl (\<lambda>a c. 16 * a + the (hexDigit c)) 0 z)))"

text \<open>\<^verbatim>\<open>s.slice(i, j)\<close> for \<open>0 \<le> i \<le> j\<close>.\<close>

definition slice :: "nat \<Rightarrow> nat \<Rightarrow> 'a list \<Rightarrow> 'a list" where
  "slice i j s = take (j - i) (drop i s)"

text \<open>
  The value assigned to \<^verbatim>\<open>ctx.strokeStyle\<close>: the template
  \<^verbatim>\<open>rgba(r, g, b, alpha)\<close> is kept as its four components, the plain colour as the
  configured string.
\<close>

datatype StrokeStyle = Rgba "int option" "int option" "int option" real | Plain string

definition strokeStyleOf :: "DrawingOptions \<Rightarrow> StrokeStyle" where
  "strokeStyleOf options =
     (if tool options = Pencil then
        (let r = parseInt16 (slice 1 3 (color options));
             g = parseInt16 (slice 3 5 (color options));
             b = parseInt16 (slice 5 7 (color options))
         in Rgba r g b (alphaOf options))
      else Plain (color options))"

text \<open>
  One painted segment: the line width and stroke style in force at \<^verbatim>\<open>ctx.stroke()\<close>,
  the \<^verbatim>\<open>moveTo\<close> point, and the control and end points of \<^verbatim>\<open>quadraticCurveTo\<close>.
\<close>

record Segment =
  lineWidth :: real
  strokeStyle :: StrokeStyle
  moveTo :: "real \<times> real"
  control :: "real \<times> real"
  curveEnd :: "real \<times> real"

text \<open>
  \<^verbatim>\<open>drawCurve(ctx, points)\<close> with the mutable \<^verbatim>\<open>lastWidth.current\<close> passed in:
  \<open>None\<close> is the early return on fewer than three points, otherwise the painted
  segment and the new \<^verbatim>\<open>lastWidth.current\<close>.
\<close>

definition drawCurve :: "DrawingOptions \<Rightarrow> real \<Rightarrow> Point list \<Rightarrow> (Segment \<times> real) option" where
  "drawCurve options lastW points =
     (if length points < 3 then None
      else
        (let p1 = points ! (length points - 3);
             p2 = points ! (length points - 2);
             p3 = points ! (length points - 1);
             mid1 = getMidPoint p1 p2;
             mid2 = getMidPoint p2 p3;
             tw = targetWidth options p1 p2;
             width = lastW * smoothingFactor options + tw * (1 - smoothingFactor options)
         in Some (\<lparr> lineWidth = width,
                    strokeStyle = strokeStyleOf options,
                    moveTo = (x mid1, y mid1),
                    control = (x p2, y p2),
                    curveEnd = (x mid2, y mid2) \<rparr>, width)))"

section \<open>Session state and pointer handlers (SignaturePad)\<close>

text \<open>
  One pending \<^verbatim>\<open>requestAnimationFrame(drawNext)\<close> callback: the closure of one
  \<^verbatim>\<open>animateDrawing\<close> call, that is the stroke list it was given, its two counters,
  and the options of the render whose \<^verbatim>\<open>drawCurve\<close> it calls.
\<close>

record Animation =
  allStrokes :: "Stroke list"
  strokeIdx :: nat
  pointIdx :: nat
  animOptions :: DrawingOptions

text \<open>
  The component's state and refs. The canvas is the list of segments painted since the
  last \<^verbatim>\<open>clearRect\<close>, oldest first; the canvas element is taken to be mounted.
\<close>

record PadState =
  strokes :: "Stroke list"
  currentStroke :: Stroke
  isDrawing :: bool
  lastPoint :: "Point option"
  lastVelocity :: real
  lastWidth :: real
  canvas :: "Segment list"
  scheduled :: "Animation list"

definition initial :: "DrawingOptions \<Rightarrow> PadState" where
  "initial options =
     \<lparr> strokes = [], currentStroke = [], isDrawing = False, lastPoint = None,
       lastVelocity = 0, lastWidth = maxWidth options, canvas = [], scheduled = [] \<rparr>"

text \<open>\<^verbatim>\<open>drawCurve\<close> as the state change it is: it paints, and it updates \<^verbatim>\<open>lastWidth\<close>.\<close>

definition paint :: "DrawingOptions \<Rightarrow> Point list \<Rightarrow> PadState \<Rightarrow> PadState" where
  "paint options points s =
     (case drawCurve options (lastWidth s) points of
        None \<Rightarrow> s
      | Some (seg, w) \<Rightarrow> s\<lparr> lastWidth := w, canvas := canvas s @ [seg] \<rparr>)"

text \<open>
  The pointer handlers take the sample that \<^verbatim>\<open>getPoint(e)\<close> builds from the event;
  its pressure and pointer type are the event's.
\<close>

definition handlePointerDown :: "DrawingOptions \<Rightarrow> Point \<Rightarrow> PadState \<Rightarrow> PadState" where
  "handlePointerDown options point s =
     s\<lparr> isDrawing := True,
        lastPoint := Some point,
        currentStroke := [point],
        lastVelocity := 0,
        lastWidth :=
          (if tool options = Pencil then maxWidth options * 0.5
           else if pointerType point = Some ''pen'' then
             minWidth options + (maxWidth options - minWidth options) * pressureOr (pressure point)
           else (minWidth options + maxWidth options) / 2) \<rparr>"

definition handlePointerMove :: "DrawingOptions \<Rightarrow> Point \<Rightarrow> PadState \<Rightarrow> PadState" where
  "handlePointerMove options raw s =
     (if \<not> isDrawing s then s
      else
        (let effectiveStreamline =
               (if tool options = Pencil then streamline options * 0.5 else streamline options);
             point =
               (case lastPoint s of
                  Some lp \<Rightarrow>
                    if effectiveStreamline > 0
                    then raw\<lparr> x := lerp (x lp) (x raw) (1 - effectiveStreamline),
                              y := lerp (y lp) (y raw) (1 - effectiveStreamline) \<rparr>
                    else raw
                | None \<Rightarrow> raw);
             newStroke = currentStroke s @ [point];
             s' = paint options newStroke s
         in s'\<lparr> currentStroke := newStroke, lastPoint := Some point \<rparr>))"

definition handlePointerUp :: "PadState \<Rightarrow> PadState" where
  "handlePointerUp s =
     (if \<not> isDrawing s then s
      else s\<lparr> isDrawing := False,
              strokes := strokes s @ [currentStroke s],
              currentStroke := [],
              lastPoint := None \<rparr>)"

definition clear :: "PadState \<Rightarrow> PadState" where
  "clear s = s\<lparr> strokes := [], currentStroke := [], canvas := [] \<rparr>"

definition isEmpty :: "PadState \<Rightarrow> bool" where
  "isEmpty s = (length (strokes s) = 0 \<and> length (currentStroke s) = 0)"

section \<open>Replay (animateDrawing)\<close>

text \<open>
  One run of \<^verbatim>\<open>drawNext\<close>. The test \<^verbatim>\<open>pointIdx < stroke.length - 1\<close> is written
  without the subtraction; \<^verbatim>\<open>stroke.slice(0, pointIdx + 3)\<close> is \<open>take\<close>. Each
  \<^verbatim>\<open>requestAnimationFrame(drawNext)\<close> queues the closure with its counters advanced.
\<close>

definition drawNext :: "Animation \<Rightarrow> PadState \<Rightarrow> PadState" where
  "drawNext a s =
     (if strokeIdx a \<ge> length (allStrokes a) then s
      else
        (let stroke = allStrokes a ! strokeIdx a in
         if pointIdx a + 1 < length stroke then
           (let subStroke = take (pointIdx a + 3) stroke;
                s' = paint (animOptions a) subStroke s
            in s'\<lparr> scheduled := scheduled s' @ [a\<lparr> pointIdx := pointIdx a + 1 \<rparr>] \<rparr>)
         else s\<lparr> scheduled := scheduled s @ [a\<lparr> strokeIdx := strokeIdx a + 1, pointIdx := 0 \<rparr>] \<rparr>))"

definition animateDrawing :: "DrawingOptions \<Rightarrow> Stroke list \<Rightarrow> PadState \<Rightarrow> PadState" where
  "animateDrawing options strokeList s =
     drawNext \<lparr> allStrokes = strokeList, strokeIdx = 0, pointIdx = 0, animOptions = options \<rparr>
       (s\<lparr> canvas := [] \<rparr>)"

definition replay :: "DrawingOptions \<Rightarrow> PadState \<Rightarrow> PadState" where
  "replay options s = animateDrawing options (strokes s) s"

text \<open>
  One animation frame: the callbacks queued so far run in the order they were queued;
  what they queue runs in the next frame.
\<close>

definition animationFrame :: "PadState \<Rightarrow> PadState" where
  "animationFrame s = foldl (\<lambda>st a. drawNext a st) (s\<lparr> scheduled := [] \<rparr>) (scheduled s)"

section \<open>The pad as a transition system\<close>

datatype Event =
    PointerDown DrawingOptions Point
  | PointerMove DrawingOptions Point
  | PointerUp
  | Clear
  | Replay DrawingOptions
  | Download
  | AnimationFrame

fun apply_event :: "Event \<Rightarrow> PadState \<Rightarrow> PadState" where
  "apply_event (PointerDown options p) s = handlePointerDown options p s"
| "apply_event (PointerMove options p) s = handlePointerMove options p s"
| "apply_event PointerUp s = handlePointerUp s"
| "apply_event Clear s = clear s"
| "apply_event (Replay options) s = replay options s"
| "apply_event Download s = s"
| "apply_event AnimationFrame s = animationFrame s"

fun run :: "Event list \<Rightarrow> PadState \<Rightarrow> PadState" where
  "run [] s = s"
| "run (e # es) s = run es (apply_event e s)"

text \<open>The events that come from the pointer: down, move, and up or leave.\<close>

fun isPointerEvent :: "Event \<Rightarrow> bool" where
  "isPointerEvent (PointerDown options p) = True"
| "isPointerEvent (PointerMove options p) = True"
| "isPointerEvent PointerUp = True"
| "isPointerEvent e = False"

section \<open>Vector export (generateSVG)\<close>

text \<open>
  \<^verbatim>\<open>v.toFixed(2)\<close>, kept as the number its decimal text denotes: the sign is set
  aside, the magnitude goes to the nearest multiple of 1/100, the larger one on a tie, and
  the sign is put back.
\<close>

definition toFixed2 :: "real \<Rightarrow> real" where
  "toFixed2 v =
     (if v < 0 then - (of_int \<lfloor>(- v) * 100 + 1 / 2\<rfloor> / 100)
      else of_int \<lfloor>v * 100 + 1 / 2\<rfloor> / 100)"

text \<open>The commands of a path's \<^verbatim>\<open>d\<close> attribute, in the order they are written.\<close>

datatype PathCmd = CmdM real real | CmdL real real

record SvgPath =
  pathData :: "PathCmd list"
  strokeColor :: string
  strokeOpacity :: real
  strokeWidth :: real

record SvgDoc =
  svgWidth :: real
  svgHeight :: real
  paths :: "SvgPath list"

text \<open>The loop \<^verbatim>\<open>for (let i = 1; i < stroke.length - 1; i++)\<close>, from counter \<open>i\<close>.\<close>

function lineTos :: "Stroke \<Rightarrow> nat \<Rightarrow> PathCmd list \<Rightarrow> PathCmd list" where
  "lineTos stroke i d =
     (if i + 1 < length stroke
      then lineTos stroke (i + 1)
             (d @ [CmdL (toFixed2 (x (stroke ! i))) (toFixed2 (y (stroke ! i)))])
      else d)"
  by pat_completeness auto
termination
  by (relation "measure (\<lambda>(stroke, i, d). length stroke - i)") auto

declare lineTos.simps [simp del]

text \<open>The body of the \<^verbatim>\<open>forEach\<close> callback past its early return.\<close>

definition strokePath :: "DrawingOptions \<Rightarrow> Stroke \<Rightarrow> SvgPath" where
  "strokePath options stroke =
     (let d0 = [CmdM (toFixed2 (x (stroke ! 0))) (toFixed2 (y (stroke ! 0)))];
          d1 = lineTos stroke 1 d0;
          d2 = d1 @ [CmdL (toFixed2 (x (stroke ! (length stroke - 1))))
                          (toFixed2 (y (stroke ! (length stroke - 1))))]
      in \<lparr> pathData = d2,
           strokeColor = color options,
           strokeOpacity = (if tool options = Pencil then 0.7 else 1),
           strokeWidth = (if tool options = Pencil then maxWidth options * 0.5
                          else maxWidth options) \<rparr>)"

definition generateSVG :: "DrawingOptions \<Rightarrow> real \<Rightarrow> Stroke list \<Rightarrow> real \<Rightarrow> real \<Rightarrow> SvgDoc" where
  "generateSVG options devicePixelRatio strokeList width height =
     (let dpr = (if devicePixelRatio = 0 then 1 else devicePixelRatio);
          w = width / dpr;
          h = height / dpr;
          ps = foldl (\<lambda>acc stroke. if length stroke < 2 then acc
                                     else acc @ [strokePath options stroke]) [] strokeList
      in \<lparr> svgWidth = w, svgHeight = h, paths = ps \<rparr>)"

section \<open>Well-formed input and invariants\<close>

text \<open>A pressure, when reported, lies in the unit interval.\<close>

definition sample_ok :: "Point \<Rightarrow> bool" where
  "sample_ok p = (case pressure p of None \<Rightarrow> True | Some v \<Rightarrow> 0 \<le> v \<and> v \<le> 1)"

text \<open>
  A session under one options snapshot: every pointer event and every replay carries
  \<open>options\<close>, every sample is well formed, and the samples' time stamps never decrease
  from \<open>t\<close> onwards.
\<close>

fun events_ok :: "DrawingOptions \<Rightarrow> real \<Rightarrow> Event list \<Rightarrow> bool" where
  "events_ok options t [] = True"
| "events_ok options t (PointerDown options' p # es) =
     (options' = options \<and> sample_ok p \<and> t \<le> time p \<and> events_ok options (time p) es)"
| "events_ok options t (PointerMove options' p # es) =
     (options' = options \<and> sample_ok p \<and> t \<le> time p \<and> events_ok options (time p) es)"
| "events_ok options t (Replay options' # es) = (options' = options \<and> events_ok options t es)"
| "events_ok options t (e # es) = events_ok options t es"

definition options_ok :: "DrawingOptions \<Rightarrow> bool" where
  "options_ok options = (0 < minWidth options \<and> minWidth options \<le> maxWidth options)"

text \<open>The interval that holds every width, by tool.\<close>

definition widthLo :: "DrawingOptions \<Rightarrow> real" where
  "widthLo options =
     (if tool options = Pencil
      then min (min (minWidth options) (minWidth options * 0.5)) (maxWidth options * 0.4)
      else min (minWidth options) (minWidth options * 0.5))"

definition widthHi :: "DrawingOptions \<Rightarrow> real" where
  "widthHi options =
     (if tool options = Pencil then max 0.5 (maxWidth options * 1.5) else maxWidth options * 1.5)"

definition in_range :: "DrawingOptions \<Rightarrow> real \<Rightarrow> bool" where
  "in_range options w = (widthLo options \<le> w \<and> w \<le> widthHi options)"

definition stroke_ok :: "Stroke \<Rightarrow> bool" where
  "stroke_ok st = (sorted (map time st) \<and> (\<forall>p \<in> set st. sample_ok p))"

definition anim_ok :: "DrawingOptions \<Rightarrow> Animation \<Rightarrow> bool" where
  "anim_ok options a = (animOptions a = options \<and> (\<forall>st \<in> set (allStrokes a). stroke_ok st))"

definition ink_ok :: "DrawingOptions \<Rightarrow> PadState \<Rightarrow> bool" where
  "ink_ok options s =
     (in_range options (lastWidth s) \<and> (\<forall>seg \<in> set (canvas s). in_range options (lineWidth seg)))"

definition store_ok :: "DrawingOptions \<Rightarrow> real \<Rightarrow> PadState \<Rightarrow> bool" where
  "store_ok options t s =
     (stroke_ok (currentStroke s) \<and> (\<forall>p \<in> set (currentStroke s). time p \<le> t)
      \<and> (\<forall>st \<in> set (strokes s). stroke_ok st)
      \<and> (\<forall>a \<in> set (scheduled s). anim_ok options a))"

text \<open>The drawing flag and the stabilizer's memory go together; samples are buffered only while drawing.\<close>

definition capture_inv :: "PadState \<Rightarrow> bool" where
  "capture_inv s =
     ((currentStroke s \<noteq> [] \<longrightarrow> isDrawing s) \<and> (isDrawing s \<longleftrightarrow> lastPoint s \<noteq> None))"

text \<open>Two states with the same width memory and the same queued callbacks, the first with more ink.\<close>

definition same_ink :: "Segment list \<Rightarrow> PadState \<Rightarrow> PadState \<Rightarrow> bool" where
  "same_ink pre s t =
     (lastWidth s = lastWidth t \<and> scheduled s = scheduled t \<and> canvas s = pre @ canvas t)"

text \<open>A sample whose pressure 0 is made absent.\<close>

definition absentIfZero :: "Point \<Rightarrow> Point" where
  "absentIfZero p = (if pressure p = Some 0 then p\<lparr> pressure := None \<rparr> else p)"

section \<open>Example sessions\<close>

definition ex_options :: "ToolType \<Rightarrow> real \<Rightarrow> real \<Rightarrow> DrawingOptions" where
  "ex_options tool_kind lo hi =
     \<lparr> color = ''#1a2B3c'', minWidth = lo, maxWidth = hi, smoothing = 0.5, streamline = 0,
       tool = tool_kind \<rparr>"

text \<open>A mouse moving to the right, 17 pixels every 16 milliseconds.\<close>

definition ex_sample :: "real \<Rightarrow> Point" where
  "ex_sample k =
     \<lparr> x = 17 * k, y = 0, pressure = Some 0.5, time = 16 * k, pointerType = Some ''mouse'' \<rparr>"

definition ex_capture :: "DrawingOptions \<Rightarrow> Event list" where
  "ex_capture options =
     [PointerDown options (ex_sample 0), PointerMove options (ex_sample 1),
      PointerMove options (ex_sample 2), PointerUp]"

section \<open>Auxiliary facts\<close>

subsection \<open>Geometry and colour parsing\<close>

lemma getDistance_horizontal: "y p1 = y p2 \<Longrightarrow> getDistance p1 p2 = \<bar>x p1 - x p2\<bar>"
  by (simp add: getDistance_def)

lemma getDistance_nonneg: "0 \<le> getDistance p1 p2"
  by (simp add: getDistance_def)

lemma hexDigit_not_space: "hexDigit c = Some v \<Longrightarrow> \<not> isWhiteSpace c"
  by (auto simp: hexDigit_def isWhiteSpace_def Let_def split: if_splits)

lemma hexDigit_not_sign: "hexDigit c = Some v \<Longrightarrow> c \<noteq> CHR ''-'' \<and> c \<noteq> CHR ''+'' \<and> c \<noteq> CHR ''x'' \<and> c \<noteq> CHR ''X''"
  by (auto simp: hexDigit_def Let_def split: if_splits)

lemma parseInt16_two:
  assumes "hexDigit a = Some va" "hexDigit b = Some vb"
  shows "parseInt16 [a, b] = Some (int (16 * va + vb))"
  using assms hexDigit_not_space[OF assms(1)] hexDigit_not_sign[OF assms(1)] hexDigit_not_sign[OF assms(2)]
  by (simp add: parseInt16_def Let_def)

subsection \<open>What painting and replay leave alone\<close>

lemma paint_store [simp]:
  "strokes (paint options pts s) = strokes s"
  "currentStroke (paint options pts s) = currentStroke s"
  "isDrawing (paint options pts s) = isDrawing s"
  "lastPoint (paint options pts s) = lastPoint s"
  "scheduled (paint options pts s) = scheduled s"
  by (simp_all add: paint_def split: option.splits prod.splits)

lemma drawNext_frame [simp]:
  "strokes (drawNext a s) = strokes s"
  "currentStroke (drawNext a s) = currentStroke s"
  "isDrawing (drawNext a s) = isDrawing s"
  "lastPoint (drawNext a s) = lastPoint s"
  by (simp_all add: drawNext_def Let_def)

lemma foldl_drawNext_frame [simp]:
  "strokes (foldl (\<lambda>st a. drawNext a st) s as) = strokes s"
  "currentStroke (foldl (\<lambda>st a. drawNext a st) s as) = currentStroke s"
  "isDrawing (foldl (\<lambda>st a. drawNext a st) s as) = isDrawing s"
  "lastPoint (foldl (\<lambda>st a. drawNext a st) s as) = lastPoint s"
  by (induction as arbitrary: s; simp)+

lemma animationFrame_frame [simp]:
  "strokes (animationFrame s) = strokes s"
  "currentStroke (animationFrame s) = currentStroke s"
  "isDrawing (animationFrame s) = isDrawing s"
  "lastPoint (animationFrame s) = lastPoint s"
  by (simp_all add: animationFrame_def)

lemma replay_frame [simp]:
  "strokes (replay options s) = strokes s"
  "currentStroke (replay options s) = currentStroke s"
  "isDrawing (replay options s) = isDrawing s"
  "lastPoint (replay options s) = lastPoint s"
  by (simp_all add: replay_def animateDrawing_def)

subsection \<open>The capture invariant\<close>

lemma capture_inv_step: "capture_inv s \<Longrightarrow> capture_inv (apply_event e s)"
  by (cases e) (auto simp: capture_inv_def handlePointerDown_def handlePointerMove_def Let_def
      handlePointerUp_def clear_def)

lemma capture_inv_run: "capture_inv s \<Longrightarrow> capture_inv (run evs s)"
  by (induction evs arbitrary: s) (auto intro: capture_inv_step)

lemma run_append: "run (xs @ ys) s = run ys (run xs s)"
  by (induction xs arbitrary: s) simp_all

lemma pointer_event_iff:
  "isPointerEvent e \<Longrightarrow> capture_inv s \<Longrightarrow>
   (isDrawing (apply_event e s) \<longleftrightarrow> currentStroke (apply_event e s) \<noteq> [])"
  by (cases e) (auto simp: capture_inv_def handlePointerDown_def handlePointerMove_def Let_def
      handlePointerUp_def)

lemma other_event_keeps:
  "\<not> isPointerEvent e \<Longrightarrow> e \<noteq> Clear \<Longrightarrow>
   isDrawing (apply_event e s) = isDrawing s \<and> currentStroke (apply_event e s) = currentStroke s"
  by (cases e) simp_all

lemma quiet_events_keep_drawing:
  "\<forall>e \<in> set post. \<not> isPointerEvent e \<Longrightarrow> isDrawing (run post s) = isDrawing s"
proof (induction post arbitrary: s)
  case Nil then show ?case by simp
next
  case (Cons e es)
  then have "isDrawing (apply_event e s) = isDrawing s"
    by (cases e) (simp_all add: clear_def)
  with Cons show ?case by simp
qed

lemma quiet_events_keep_empty:
  "\<forall>e \<in> set post. \<not> isPointerEvent e \<Longrightarrow> currentStroke s = [] \<Longrightarrow> currentStroke (run post s) = []"
proof (induction post arbitrary: s)
  case Nil then show ?case by simp
next
  case (Cons e es)
  then have "currentStroke (apply_event e s) = []"
    by (cases e) (simp_all add: clear_def)
  with Cons show ?case by simp
qed

lemma drawing_empty_cause:
  assumes "capture_inv s0"
    and "isDrawing s0 \<longleftrightarrow> currentStroke s0 \<noteq> []"
    and "isDrawing (run evs s0)" and "currentStroke (run evs s0) = []"
  shows "\<exists>pre post. evs = pre @ Clear # post \<and> isDrawing (run pre s0)
           \<and> (\<forall>e \<in> set post. \<not> isPointerEvent e)"
  using assms(3,4)
proof (induction evs rule: rev_induct)
  case Nil
  with assms(2) show ?case by simp
next
  case (snoc e es)
  have inv: "capture_inv (run es s0)" using assms(1) by (rule capture_inv_run)
  have r: "run (es @ [e]) s0 = apply_event e (run es s0)" by (simp add: run_append)
  show ?case
  proof (cases "isPointerEvent e")
    case True
    from pointer_event_iff[OF True inv] snoc.prems show ?thesis unfolding r by simp
  next
    case False
    show ?thesis
    proof (cases "e = Clear")
      case True
      with snoc.prems have "isDrawing (run es s0)" unfolding r by (simp add: clear_def)
      then have "es @ [e] = es @ Clear # [] \<and> isDrawing (run es s0)
           \<and> (\<forall>e \<in> set []. \<not> isPointerEvent e)" using True by simp
      then show ?thesis by blast
    next
      case c: False
      from other_event_keeps[OF False c, of "run es s0"] snoc.prems
      have "isDrawing (run es s0)" "currentStroke (run es s0) = []" unfolding r by simp_all
      from snoc.IH[OF this] obtain pre post where
        p: "es = pre @ Clear # post" "isDrawing (run pre s0)" "\<forall>e \<in> set post. \<not> isPointerEvent e"
        by blast
      then have "es @ [e] = pre @ Clear # (post @ [e]) \<and> isDrawing (run pre s0)
           \<and> (\<forall>e' \<in> set (post @ [e]). \<not> isPointerEvent e')" using False by simp
      then show ?thesis by blast
    qed
  qed
qed

subsection \<open>Replay does not look at the store or the surface\<close>

lemma same_ink_paint:
  "same_ink pre s t \<Longrightarrow> same_ink pre (paint options pts s) (paint options pts t)"
  by (auto simp: same_ink_def paint_def split: option.splits)

lemma same_ink_drawNext:
  "same_ink pre s t \<Longrightarrow> same_ink pre (drawNext a s) (drawNext a t)"
proof -
  assume h: "same_ink pre s t"
  have p: "\<And>pts. same_ink pre (paint (animOptions a) pts s) (paint (animOptions a) pts t)"
    using h by (rule same_ink_paint)
  show ?thesis
    using h p[of "take (pointIdx a + 3) (allStrokes a ! strokeIdx a)"]
    by (simp add: drawNext_def Let_def same_ink_def)
qed

lemma same_ink_foldl:
  "same_ink pre s t \<Longrightarrow>
   same_ink pre (foldl (\<lambda>st a. drawNext a st) s as) (foldl (\<lambda>st a. drawNext a st) t as)"
  by (induction as arbitrary: s t) (simp_all add: same_ink_drawNext)

subsection \<open>Width bounds\<close>

lemma pressureOr_range: "sample_ok p \<Longrightarrow> 0 < pressureOr (pressure p) \<and> pressureOr (pressure p) \<le> 1"
  by (auto simp: sample_ok_def pressureOr_def split: option.splits)

lemma speed_range:
  assumes "time p1 \<le> time p2" "0 < m"
  shows "0 \<le> min (drawCurve_velocity p1 p2) m / m \<and> min (drawCurve_velocity p1 p2) m / m \<le> 1"
proof -
  have "0 \<le> drawCurve_velocity p1 p2"
    using assms(1) getDistance_nonneg[of p1 p2] by (simp add: drawCurve_velocity_def)
  then show ?thesis using assms(2) by (simp add: min_def)
qed

lemma between_down:
  fixes a b t :: real
  assumes "0 \<le> t" "t \<le> 1" "a \<le> b"
  shows "a \<le> b - t * (b - a) \<and> b - t * (b - a) \<le> b"
proof -
  have "t * (b - a) \<le> 1 * (b - a)" using assms by (intro mult_right_mono) auto
  moreover have "0 \<le> t * (b - a)" using assms by simp
  ultimately show ?thesis by simp
qed

lemma between_up:
  fixes a b t :: real
  assumes "0 \<le> t" "t \<le> 1" "a \<le> b"
  shows "a \<le> a + (b - a) * t \<and> a + (b - a) * t \<le> b"
  using between_down[OF assms] by (simp add: algebra_simps)

lemma blend_range:
  fixes u v k lo hi :: real
  assumes "lo \<le> u" "u \<le> hi" "lo \<le> v" "v \<le> hi" "0 \<le> k" "k \<le> 1"
  shows "lo \<le> u * k + v * (1 - k) \<and> u * k + v * (1 - k) \<le> hi"
proof -
  have "lo * k \<le> u * k" "u * k \<le> hi * k" using assms by (auto intro: mult_right_mono)
  moreover have "lo * (1 - k) \<le> v * (1 - k)" "v * (1 - k) \<le> hi * (1 - k)"
    using assms by (auto intro: mult_right_mono)
  ultimately have "lo * k + lo * (1 - k) \<le> u * k + v * (1 - k)" "u * k + v * (1 - k) \<le> hi * k + hi * (1 - k)"
    by linarith+
  then show ?thesis by (simp add: algebra_simps)
qed

lemma targetWidth_range:
  assumes o: "0 < minWidth options" "minWidth options \<le> maxWidth options"
    and t: "time p1 \<le> time p2" and p: "sample_ok p2"
  shows "in_range options (targetWidth options p1 p2)"
proof (cases "tool options")
  case Pencil
  then show ?thesis using o by (auto simp: in_range_def widthLo_def widthHi_def targetWidth_def)
next
  case Pen
  have lo: "widthLo options = min (minWidth options) (minWidth options * 0.5)"
    and hi: "widthHi options = maxWidth options * 1.5"
    using Pen by (simp_all add: widthLo_def widthHi_def)
  show ?thesis
  proof (cases "pointerType p2 = Some ''pen''")
    case True
    define v where "v = minWidth options + (maxWidth options - minWidth options) * pressureOr (pressure p2)"
    have tw: "targetWidth options p1 p2 = v * 1.1"
      using Pen True by (simp add: targetWidth_def Let_def v_def)
    have "minWidth options \<le> v \<and> v \<le> maxWidth options"
      unfolding v_def using between_up[of "pressureOr (pressure p2)" "minWidth options" "maxWidth options"]
        pressureOr_range[OF p] o by simp
    then show ?thesis unfolding in_range_def lo hi tw using o by (simp add: min_def)
  next
    case False
    define ns where "ns = min (drawCurve_velocity p1 p2) 2.5 / 2.5"
    have tw: "targetWidth options p1 p2 = maxWidth options - ns * (maxWidth options - minWidth options)"
      using Pen False by (simp add: targetWidth_def Let_def ns_def)
    have "0 \<le> ns" "ns \<le> 1" unfolding ns_def using speed_range[OF t, of "2.5"] by auto
    from between_down[OF this o(2)]
    show ?thesis unfolding in_range_def lo hi tw using o by (simp add: min_def)
  qed
next
  case Calligraphy
  have lo: "widthLo options = min (minWidth options) (minWidth options * 0.5)"
    and hi: "widthHi options = maxWidth options * 1.5"
    using Calligraphy by (simp_all add: widthLo_def widthHi_def)
  show ?thesis
  proof (cases "pointerType p2 = Some ''pen''")
    case True
    define q where "q = (pressureOr (pressure p2))\<^sup>2"
    have tw: "targetWidth options p1 p2 = minWidth options + (maxWidth options * 1.5 - minWidth options) * q"
      using Calligraphy True by (simp add: targetWidth_def Let_def q_def)
    have "0 \<le> q" "q \<le> 1" unfolding q_def using pressureOr_range[OF p] by (auto simp: power_le_one)
    from between_up[OF this, of "minWidth options" "maxWidth options * 1.5"] o
    show ?thesis unfolding in_range_def lo hi tw by (simp add: min_def)
  next
    case False
    define ns where "ns = min (drawCurve_velocity p1 p2) 3.5 / 3.5"
    have tw: "targetWidth options p1 p2
        = maxWidth options * 1.5 - ns * (maxWidth options * 1.5 - minWidth options * 0.5)"
      using Calligraphy False by (simp add: targetWidth_def Let_def ns_def)
    have "0 \<le> ns" "ns \<le> 1" unfolding ns_def using speed_range[OF t, of "3.5"] by auto
    from between_down[OF this, of "minWidth options * 0.5" "maxWidth options * 1.5"] o
    show ?thesis unfolding in_range_def lo hi tw by (simp add: min_def)
  qed
qed

lemma smoothingFactor_range: "0 \<le> smoothingFactor options \<and> smoothingFactor options \<le> 1"
  by (simp add: smoothingFactor_def)

lemma drawCurve_range:
  assumes o: "options_ok options" and st: "stroke_ok pts" and lw: "in_range options lw"
    and d: "drawCurve options lw pts = Some (seg, w)"
  shows "in_range options w \<and> lineWidth seg = w"
proof -
  from d have n: "3 \<le> length pts" by (simp add: drawCurve_def split: if_splits)
  define p1 where "p1 = pts ! (length pts - 3)"
  define p2 where "p2 = pts ! (length pts - 2)"
  have "map time pts ! (length pts - 3) \<le> map time pts ! (length pts - 2)"
    using st n by (intro sorted_nth_mono) (auto simp: stroke_ok_def)
  then have t: "time p1 \<le> time p2" using n by (simp add: p1_def p2_def)
  have "p2 \<in> set pts" unfolding p2_def using n by (intro nth_mem) simp
  then have p: "sample_ok p2" using st by (simp add: stroke_ok_def)
  from o have tw: "in_range options (targetWidth options p1 p2)"
    by (intro targetWidth_range[OF _ _ t p]) (simp_all add: options_ok_def)
  have w: "w = lw * smoothingFactor options + targetWidth options p1 p2 * (1 - smoothingFactor options)"
    and s: "lineWidth seg = w"
    using d n by (auto simp: drawCurve_def Let_def p1_def p2_def split: if_splits)
  from blend_range[of "widthLo options" lw "widthHi options" "targetWidth options p1 p2"
      "smoothingFactor options"] lw tw smoothingFactor_range[of options]
  show ?thesis unfolding w[symmetric] using s by (simp add: in_range_def w)
qed

lemma paint_ink:
  assumes "options_ok options" "stroke_ok pts" "ink_ok options s"
  shows "ink_ok options (paint options pts s)"
proof (cases "drawCurve options (lastWidth s) pts")
  case None
  then show ?thesis using assms by (simp add: paint_def)
next
  case (Some r)
  obtain seg w where r: "r = (seg, w)" by (cases r)
  from drawCurve_range[OF assms(1,2) _ Some[unfolded r]] assms(3)
  have "in_range options w \<and> lineWidth seg = w" by (simp add: ink_ok_def)
  then show ?thesis using assms(3) Some r by (auto simp: paint_def ink_ok_def)
qed

lemma stroke_ok_take: "stroke_ok st \<Longrightarrow> stroke_ok (take n st)"
  by (auto simp: stroke_ok_def take_map[symmetric] sorted_wrt_take dest: in_set_takeD)

lemma drawNext_ok:
  assumes o: "options_ok options" and a: "anim_ok options a"
    and i: "ink_ok options s" and s: "store_ok options t s"
  shows "ink_ok options (drawNext a s) \<and> store_ok options t (drawNext a s)"
proof (cases "strokeIdx a < length (allStrokes a) \<and> pointIdx a + 1 < length (allStrokes a ! strokeIdx a)")
  case True
  define pts where "pts = take (pointIdx a + 3) (allStrokes a ! strokeIdx a)"
  have "stroke_ok (allStrokes a ! strokeIdx a)" using a True by (simp add: anim_ok_def)
  then have "stroke_ok pts" unfolding pts_def by (rule stroke_ok_take)
  from paint_ink[OF o this i] have "ink_ok options (paint options pts s)" .
  moreover have "anim_ok options (a\<lparr>pointIdx := pointIdx a + 1\<rparr>)" using a by (simp add: anim_ok_def)
  ultimately show ?thesis using True a s
    by (simp add: drawNext_def Let_def pts_def anim_ok_def ink_ok_def store_ok_def)
next
  case False
  have "anim_ok options (a\<lparr>strokeIdx := strokeIdx a + 1, pointIdx := 0\<rparr>)"
    using a by (simp add: anim_ok_def)
  then show ?thesis using False i s
    by (auto simp: drawNext_def Let_def ink_ok_def store_ok_def)
qed

lemma foldl_drawNext_ok:
  assumes "options_ok options" "\<forall>a \<in> set as. anim_ok options a"
    "ink_ok options s" "store_ok options t s"
  shows "ink_ok options (foldl (\<lambda>st a. drawNext a st) s as)
       \<and> store_ok options t (foldl (\<lambda>st a. drawNext a st) s as)"
  using assms
proof (induction as arbitrary: s)
  case Nil
  then show ?case by simp
next
  case (Cons a as)
  from Cons.prems have "anim_ok options a" by simp
  from drawNext_ok[OF Cons.prems(1) this Cons.prems(3,4)] Cons.IH[of "drawNext a s"] Cons.prems(1,2)
  show ?case by simp
qed

lemma initialWidth_range:
  assumes "options_ok options" "sample_ok p"
  shows "in_range options (lastWidth (handlePointerDown options p s))"
proof -
  from assms have o: "0 < minWidth options" "minWidth options \<le> maxWidth options"
    by (simp_all add: options_ok_def)
  define v where "v = minWidth options + (maxWidth options - minWidth options) * pressureOr (pressure p)"
  have "minWidth options \<le> v \<and> v \<le> maxWidth options"
    unfolding v_def using between_up[of "pressureOr (pressure p)" "minWidth options" "maxWidth options"]
      pressureOr_range[OF assms(2)] o by simp
  then show ?thesis using o
    by (auto simp: handlePointerDown_def in_range_def widthLo_def widthHi_def v_def[symmetric])
qed

lemma step_ok:
  assumes o: "options_ok options" and e: "events_ok options t (e # es)"
    and i: "ink_ok options s" and s: "store_ok options t s"
  shows "\<exists>t'. events_ok options t' es \<and> ink_ok options (apply_event e s)
            \<and> store_ok options t' (apply_event e s)"
proof (cases e)
  case (PointerDown options' p)
  with e have h: "options' = options" "sample_ok p" "t \<le> time p" "events_ok options (time p) es"
    by simp_all
  have "ink_ok options (handlePointerDown options p s)"
    using initialWidth_range[OF o h(2), of s] i
    by (simp add: ink_ok_def) (simp add: handlePointerDown_def)
  moreover have "store_ok options (time p) (handlePointerDown options p s)"
    using s h(2) by (simp add: store_ok_def handlePointerDown_def stroke_ok_def)
  ultimately show ?thesis using h PointerDown by auto
next
  case (PointerMove options' raw)
  with e have h: "options' = options" "sample_ok raw" "t \<le> time raw" "events_ok options (time raw) es"
    by simp_all
  show ?thesis
  proof (cases "isDrawing s")
    case False
    have "store_ok options (time raw) s" using s h(3) by (auto simp: store_ok_def)
    then show ?thesis using False i h PointerMove by (auto simp: handlePointerMove_def)
  next
    case True
    define eff where "eff = (if tool options = Pencil then streamline options * 0.5 else streamline options)"
    define point where "point = (case lastPoint s of
                  Some lp \<Rightarrow>
                    if eff > 0
                    then raw\<lparr> x := lerp (x lp) (x raw) (1 - eff),
                              y := lerp (y lp) (y raw) (1 - eff) \<rparr>
                    else raw
                | None \<Rightarrow> raw)"
    have pt: "time point = time raw" "pressure point = pressure raw"
      by (simp_all add: point_def split: option.splits)
    then have pk: "sample_ok point" using h(2) by (simp add: sample_ok_def)
    have m: "handlePointerMove options raw s
        = (paint options (currentStroke s @ [point]) s)\<lparr>currentStroke := currentStroke s @ [point], lastPoint := Some point\<rparr>"
      unfolding point_def eff_def handlePointerMove_def Let_def using True by simp
    have so: "stroke_ok (currentStroke s @ [point])"
      using s pk pt h(3) by (auto simp: store_ok_def stroke_ok_def sorted_append)
    from paint_ink[OF o so i] have "ink_ok options (handlePointerMove options raw s)"
      unfolding m by (simp add: ink_ok_def)
    moreover have "store_ok options (time raw) (handlePointerMove options raw s)"
      unfolding m using s so pt h(3) by (auto simp: store_ok_def)
    ultimately show ?thesis using h PointerMove by auto
  qed
next
  case PointerUp
  with e have "events_ok options t es" by simp
  moreover have "ink_ok options (handlePointerUp s)" using i by (simp add: ink_ok_def handlePointerUp_def)
  moreover have "store_ok options t (handlePointerUp s)"
    using s by (auto simp: store_ok_def handlePointerUp_def stroke_ok_def)
  ultimately show ?thesis using PointerUp by auto
next
  case Clear
  with e have "events_ok options t es" by simp
  moreover have "ink_ok options (clear s)" using i by (simp add: ink_ok_def clear_def)
  moreover have "store_ok options t (clear s)"
    using s by (auto simp: store_ok_def clear_def stroke_ok_def)
  ultimately show ?thesis using Clear by auto
next
  case (Replay options')
  with e have h: "options' = options" "events_ok options t es" by simp_all
  have a: "anim_ok options \<lparr>allStrokes = strokes s, strokeIdx = 0, pointIdx = 0, animOptions = options\<rparr>"
    using s by (simp add: anim_ok_def store_ok_def)
  have "ink_ok options (s\<lparr>canvas := []\<rparr>)" "store_ok options t (s\<lparr>canvas := []\<rparr>)"
    using i s by (simp_all add: ink_ok_def store_ok_def)
  from drawNext_ok[OF o a this] show ?thesis using h Replay
    by (auto simp: replay_def animateDrawing_def)
next
  case Download
  with e i s show ?thesis by auto
next
  case AnimationFrame
  with e have "events_ok options t es" by simp
  moreover have "ink_ok options (s\<lparr>scheduled := []\<rparr>)" "store_ok options t (s\<lparr>scheduled := []\<rparr>)"
    using i s by (simp_all add: ink_ok_def store_ok_def)
  from foldl_drawNext_ok[OF o _ this, of "scheduled s"] s
  have "ink_ok options (animationFrame s) \<and> store_ok options t (animationFrame s)"
    by (simp add: animationFrame_def store_ok_def)
  ultimately show ?thesis using AnimationFrame by auto
qed

lemma run_ok:
  assumes "options_ok options"
  shows "events_ok options t evs \<Longrightarrow> ink_ok options s \<Longrightarrow> store_ok options t s \<Longrightarrow>
         ink_ok options (run evs s)"
proof (induction evs arbitrary: s t)
  case Nil
  then show ?case by simp
next
  case (Cons e es)
  from step_ok[OF assms Cons.prems] obtain t' where
    "events_ok options t' es" "ink_ok options (apply_event e s)" "store_ok options t' (apply_event e s)"
    by blast
  from Cons.IH[OF this] show ?case by simp
qed

subsection \<open>Path data of the vector export\<close>

lemma take_drop_step:
  assumes "i + 1 < n" "n = length (xs :: 'a list)"
  shows "take (n - 1 - i) (drop i xs) = xs ! i # take (n - 1 - (i + 1)) (drop (i + 1) xs)"
proof -
  from assms have "i < length xs" by simp
  then have d: "drop i xs = xs ! i # drop (Suc i) xs" by (simp add: Cons_nth_drop_Suc)
  from assms have "n - 1 - i = Suc (n - 1 - (i + 1))" by simp
  with d show ?thesis by simp
qed

lemma lineTos_eq:
  "lineTos stroke i d = d @ map (\<lambda>p. CmdL (toFixed2 (x p)) (toFixed2 (y p))) (take (length stroke - 1 - i) (drop i stroke))"
proof (induction stroke i d rule: lineTos.induct)
  case (1 stroke i d)
  show ?case
  proof (cases "i + 1 < length stroke")
    case True
    from take_drop_step[OF True refl] True 1 show ?thesis by (subst lineTos.simps) simp
  next
    case False
    then show ?thesis by (subst lineTos.simps) simp
  qed
qed

lemma tl_split:
  assumes "2 \<le> length (xs :: 'a list)"
  shows "take (length xs - 1 - 1) (drop 1 xs) @ [xs ! (length xs - 1)] = tl xs"
proof -
  from assms have ne: "tl xs \<noteq> []" by (cases xs) auto
  have "take (length xs - 1 - 1) (drop 1 xs) = butlast (tl xs)"
    by (simp add: butlast_conv_take drop_Suc)
  moreover have "xs ! (length xs - 1) = last (tl xs)"
    using assms ne by (cases xs) (auto simp: last_conv_nth)
  ultimately show ?thesis using ne by simp
qed

lemma strokePath_data:
  assumes "2 \<le> length stroke"
  shows "pathData (strokePath options stroke)
       = CmdM (toFixed2 (x (hd stroke))) (toFixed2 (y (hd stroke)))
         # map (\<lambda>p. CmdL (toFixed2 (x p)) (toFixed2 (y p))) (tl stroke)"
proof -
  have "map (\<lambda>p. CmdL (toFixed2 (x p)) (toFixed2 (y p))) (take (length stroke - 1 - 1) (drop 1 stroke)) @ [CmdL (toFixed2 (x (stroke ! (length stroke - 1)))) (toFixed2 (y (stroke ! (length stroke - 1))))] = map (\<lambda>p. CmdL (toFixed2 (x p)) (toFixed2 (y p))) (tl stroke)"
    unfolding tl_split[OF assms, symmetric] by simp
  moreover have "stroke ! 0 = hd stroke" using assms by (cases stroke) auto
  ultimately show ?thesis
    by (simp add: strokePath_def Let_def lineTos_eq)
qed

lemma foldl_paths:
  "foldl (\<lambda>acc stroke. if length stroke < 2 then acc else acc @ [f stroke]) acc0 ss
   = acc0 @ map f (filter (\<lambda>s. 2 \<le> length s) ss)"
  by (induction ss arbitrary: acc0) (auto simp: not_less)

subsection \<open>Evaluating the example sessions\<close>

lemmas ex_run_defs = ex_capture_def ex_options_def ex_sample_def initial_def handlePointerDown_def
  handlePointerMove_def handlePointerUp_def paint_def drawCurve_def Let_def targetWidth_def
  drawCurve_velocity_def getDistance_horizontal smoothingFactor_def strokeStyleOf_def
  getMidPoint_def pressureOr_def clear_def replay_def animateDrawing_def drawNext_def
  animationFrame_def

section \<open>Claims\<close>

text \<open>
  C1. Live capture of a three-sample stroke paints one segment, of width 52/25. Replaying
  the stored stroke under the same options paints that curve twice, with widths 266/125
  and 1348/625, and then stops: the width memory is not reset at the start of a replayed
  stroke, and the pass over a stroke runs one step beyond its last three-point window.
  With the width memory at its stroke-start value the first replayed segment is the live
  one and the second is the extra one.
\<close>

theorem replay_repaints_last_segment:
  "canvas (run (ex_capture (ex_options Pen 1 3)) (initial (ex_options Pen 1 3)))
     = [\<lparr> lineWidth = 52 / 25, strokeStyle = Plain ''#1a2B3c'', moveTo = (17 / 2, 0),
           control = (17, 0), curveEnd = (51 / 2, 0) \<rparr>]
   \<and> canvas (run (ex_capture (ex_options Pen 1 3)
                   @ [Replay (ex_options Pen 1 3), AnimationFrame, AnimationFrame, AnimationFrame])
             (initial (ex_options Pen 1 3)))
     = [\<lparr> lineWidth = 266 / 125, strokeStyle = Plain ''#1a2B3c'', moveTo = (17 / 2, 0),
           control = (17, 0), curveEnd = (51 / 2, 0) \<rparr>,
        \<lparr> lineWidth = 1348 / 625, strokeStyle = Plain ''#1a2B3c'', moveTo = (17 / 2, 0),
           control = (17, 0), curveEnd = (51 / 2, 0) \<rparr>]
   \<and> scheduled (run (ex_capture (ex_options Pen 1 3)
                   @ [Replay (ex_options Pen 1 3), AnimationFrame, AnimationFrame, AnimationFrame])
             (initial (ex_options Pen 1 3))) = []
   \<and> canvas (run (ex_capture (ex_options Pen 1 3)
                   @ [PointerDown (ex_options Pen 1 3) (ex_sample 3), Replay (ex_options Pen 1 3),
                      AnimationFrame, AnimationFrame, AnimationFrame])
             (initial (ex_options Pen 1 3)))
     = [\<lparr> lineWidth = 52 / 25, strokeStyle = Plain ''#1a2B3c'', moveTo = (17 / 2, 0),
           control = (17, 0), curveEnd = (51 / 2, 0) \<rparr>,
        \<lparr> lineWidth = 266 / 125, strokeStyle = Plain ''#1a2B3c'', moveTo = (17 / 2, 0),
           control = (17, 0), curveEnd = (51 / 2, 0) \<rparr>]"
  by (simp add: ex_run_defs)

text \<open>
  C2, as amended. A clear request empties the store and wipes the surface, and leaves the
  queued replay callbacks and the width memory as they are: the animation frame after a
  clear queues the same callbacks and leaves the same width memory as it would have
  without the clear, and paints onto the wiped surface exactly the segments it would have
  added without the clear.
\<close>

theorem clear_keeps_replay_running:
  "strokes (clear s) = [] \<and> currentStroke (clear s) = [] \<and> canvas (clear s) = []
   \<and> scheduled (clear s) = scheduled s
   \<and> lastWidth (clear s) = lastWidth s
   \<and> scheduled (animationFrame (clear s)) = scheduled (animationFrame s)
   \<and> lastWidth (animationFrame (clear s)) = lastWidth (animationFrame s)
   \<and> canvas (animationFrame s) = canvas s @ canvas (animationFrame (clear s))"
proof -
  have "same_ink (canvas s) (s\<lparr>scheduled := []\<rparr>) ((clear s)\<lparr>scheduled := []\<rparr>)"
    by (simp add: same_ink_def clear_def)
  then have "same_ink (canvas s) (animationFrame s) (animationFrame (clear s))"
    unfolding animationFrame_def
    using same_ink_foldl[of "canvas s" "s\<lparr>scheduled := []\<rparr>" "(clear s)\<lparr>scheduled := []\<rparr>" "scheduled s"]
    by (simp add: clear_def)
  then show ?thesis by (simp add: same_ink_def clear_def)
qed

theorem clear_keeps_replay_running_witness:
  "canvas (run (ex_capture (ex_options Pen 1 3) @ [Replay (ex_options Pen 1 3)])
             (initial (ex_options Pen 1 3)))
     = [\<lparr> lineWidth = 266 / 125, strokeStyle = Plain ''#1a2B3c'', moveTo = (17 / 2, 0),
           control = (17, 0), curveEnd = (51 / 2, 0) \<rparr>]
   \<and> canvas (animationFrame (clear
        (run (ex_capture (ex_options Pen 1 3) @ [Replay (ex_options Pen 1 3)])
             (initial (ex_options Pen 1 3)))))
     = [\<lparr> lineWidth = 1348 / 625, strokeStyle = Plain ''#1a2B3c'', moveTo = (17 / 2, 0),
           control = (17, 0), curveEnd = (51 / 2, 0) \<rparr>]"
proof -
  define s0 where "s0 = run (ex_capture (ex_options Pen 1 3) @ [Replay (ex_options Pen 1 3)])
             (initial (ex_options Pen 1 3))"
  have a: "canvas s0 = [\<lparr> lineWidth = 266 / 125, strokeStyle = Plain ''#1a2B3c'', moveTo = (17 / 2, 0),
           control = (17, 0), curveEnd = (51 / 2, 0) \<rparr>]"
    unfolding s0_def by (simp add: ex_run_defs)
  have b: "canvas (animationFrame s0)
     = [\<lparr> lineWidth = 266 / 125, strokeStyle = Plain ''#1a2B3c'', moveTo = (17 / 2, 0),
           control = (17, 0), curveEnd = (51 / 2, 0) \<rparr>,
        \<lparr> lineWidth = 1348 / 625, strokeStyle = Plain ''#1a2B3c'', moveTo = (17 / 2, 0),
           control = (17, 0), curveEnd = (51 / 2, 0) \<rparr>]"
    unfolding s0_def by (simp add: ex_run_defs)
  from clear_keeps_replay_running[of s0]
  have "canvas (animationFrame s0) = canvas s0 @ canvas (animationFrame (clear s0))" by blast
  with a b show ?thesis unfolding s0_def[symmetric] by simp
qed

theorem paint_after_clear_counterexample:
  "canvas (run (ex_capture (ex_options Pen 1 3) @ [Replay (ex_options Pen 1 3), Clear])
             (initial (ex_options Pen 1 3))) = []
   \<and> canvas (run (ex_capture (ex_options Pen 1 3) @ [Replay (ex_options Pen 1 3), Clear, AnimationFrame])
             (initial (ex_options Pen 1 3)))
     = [\<lparr> lineWidth = 1348 / 625, strokeStyle = Plain ''#1a2B3c'', moveTo = (17 / 2, 0),
           control = (17, 0), curveEnd = (51 / 2, 0) \<rparr>]"
  by (simp add: ex_run_defs)

text \<open>
  C3, as amended. In a session under one options snapshot with \<open>0 < minWidth \<le> maxWidth\<close>,
  with pressures in the unit interval and time stamps that never decrease, the width memory
  and the line width of every painted segment lie between \<open>min minWidth (minWidth * 0.5)\<close>
  and \<open>maxWidth * 1.5\<close> for the pen and the calligraphy tool; for the pencil the lower
  bound is the smaller of that and \<open>maxWidth * 0.4\<close>, and the upper bound the larger of
  \<open>maxWidth * 1.5\<close> and 0.5.
\<close>

theorem width_within_bounds:
  assumes "0 < minWidth options" and "minWidth options \<le> maxWidth options"
    and "events_ok options t evs"
    and "w = lastWidth (run evs (initial options))
         \<or> w \<in> lineWidth ` set (canvas (run evs (initial options)))"
  shows "(if tool options = Pencil
          then min (min (minWidth options) (minWidth options * 0.5)) (maxWidth options * 0.4)
          else min (minWidth options) (minWidth options * 0.5)) \<le> w
       \<and> w \<le> (if tool options = Pencil then max 0.5 (maxWidth options * 1.5)
                else maxWidth options * 1.5)"
proof -
  have o: "options_ok options" using assms by (simp add: options_ok_def)
  have "ink_ok options (initial options)"
    using assms(1,2) by (auto simp: ink_ok_def initial_def in_range_def widthLo_def widthHi_def)
  moreover have "store_ok options t (initial options)"
    by (simp add: store_ok_def initial_def stroke_ok_def)
  ultimately have "ink_ok options (run evs (initial options))"
    using run_ok[OF o assms(3)] by blast
  with assms(4) have "in_range options w" by (auto simp: ink_ok_def)
  then show ?thesis by (simp add: in_range_def widthLo_def widthHi_def)
qed

theorem width_within_bounds_witness:
  "0 < minWidth (ex_options Pen 1 3) \<and> minWidth (ex_options Pen 1 3) \<le> maxWidth (ex_options Pen 1 3)
   \<and> events_ok (ex_options Pen 1 3) 0 (ex_capture (ex_options Pen 1 3))
   \<and> 52 / 25 \<in> lineWidth ` set (canvas (run (ex_capture (ex_options Pen 1 3)) (initial (ex_options Pen 1 3))))
   \<and> min 1 (1 * 0.5) \<le> (52 / 25 :: real) \<and> (52 / 25 :: real) \<le> 3 * 1.5"
proof -
  have a: "0 < minWidth (ex_options Pen 1 3)" "minWidth (ex_options Pen 1 3) \<le> maxWidth (ex_options Pen 1 3)"
    by (simp_all add: ex_options_def)
  have b: "events_ok (ex_options Pen 1 3) 0 (ex_capture (ex_options Pen 1 3))"
    by (simp add: ex_capture_def ex_sample_def sample_ok_def)
  have c: "52 / 25 \<in> lineWidth ` set (canvas (run (ex_capture (ex_options Pen 1 3)) (initial (ex_options Pen 1 3))))"
    by (simp add: ex_run_defs)
  from width_within_bounds[OF a b disjI2, OF c] a b c
  show ?thesis by (simp add: ex_options_def)
qed

theorem pencil_width_bounds_counterexample:
  "0 < minWidth (ex_options Pencil (3 / 2) (3 / 2))
   \<and> minWidth (ex_options Pencil (3 / 2) (3 / 2)) \<le> maxWidth (ex_options Pencil (3 / 2) (3 / 2))
   \<and> map lineWidth (canvas (run (ex_capture (ex_options Pencil (3 / 2) (3 / 2)))
                                (initial (ex_options Pencil (3 / 2) (3 / 2))))) = [63 / 100]
   \<and> 63 / 100 < min (minWidth (ex_options Pencil (3 / 2) (3 / 2)))
                     (minWidth (ex_options Pencil (3 / 2) (3 / 2)) * 0.5)
   \<and> 0 < minWidth (ex_options Pencil (1 / 10) (1 / 10))
   \<and> minWidth (ex_options Pencil (1 / 10) (1 / 10)) \<le> maxWidth (ex_options Pencil (1 / 10) (1 / 10))
   \<and> map lineWidth (canvas (run (ex_capture (ex_options Pencil (1 / 10) (1 / 10)))
                                (initial (ex_options Pencil (1 / 10) (1 / 10))))) = [41 / 100]
   \<and> maxWidth (ex_options Pencil (1 / 10) (1 / 10)) * 1.5 < 41 / 100"
  by (simp add: ex_run_defs)

text \<open>
  C4, as amended. The velocity of the width model for samples \<open>a\<close>, \<open>b\<close> with
  \<open>a\<close> not later than \<open>b\<close> is the distance over the elapsed time plus one: the
  divisor is at least 1, at zero elapsed time the velocity is the distance itself, and it
  agrees with distance over \<open>max 1\<close> of the elapsed time exactly when no time has elapsed
  or the samples coincide. Both velocity-driven target widths are computed from it.
\<close>

theorem engine_velocity:
  assumes "time a \<le> time b"
  shows "drawCurve_velocity a b = getDistance a b / (time b - time a + 1)
     \<and> 1 \<le> time b - time a + 1
     \<and> (time b - time a = 0 \<longrightarrow> drawCurve_velocity a b = getDistance a b / 1)
     \<and> (drawCurve_velocity a b = getDistance a b / max 1 (time b - time a)
          \<longleftrightarrow> time b = time a \<or> getDistance a b = 0)
     \<and> (tool options = Pen \<and> pointerType b \<noteq> Some ''pen'' \<longrightarrow>
          targetWidth options a b
          = maxWidth options
            - min (getDistance a b / (time b - time a + 1)) 2.5 / 2.5
              * (maxWidth options - minWidth options))
     \<and> (tool options = Calligraphy \<and> pointerType b \<noteq> Some ''pen'' \<longrightarrow>
          targetWidth options a b
          = maxWidth options * 1.5
            - min (getDistance a b / (time b - time a + 1)) 3.5 / 3.5
              * (maxWidth options * 1.5 - minWidth options * 0.5))"
proof -
  have v: "drawCurve_velocity a b = getDistance a b / (time b - time a + 1)"
    by (simp add: drawCurve_velocity_def)
  have "drawCurve_velocity a b = getDistance a b / max 1 (time b - time a)
          \<longleftrightarrow> time b = time a \<or> getDistance a b = 0"
    using assms by (auto simp: v max_def field_simps)
  moreover have "tool options = Pen \<and> pointerType b \<noteq> Some ''pen'' \<longrightarrow>
          targetWidth options a b
          = maxWidth options
            - min (getDistance a b / (time b - time a + 1)) 2.5 / 2.5
              * (maxWidth options - minWidth options)"
    by (simp add: targetWidth_def Let_def v)
  moreover have "tool options = Calligraphy \<and> pointerType b \<noteq> Some ''pen'' \<longrightarrow>
          targetWidth options a b
          = maxWidth options * 1.5
            - min (getDistance a b / (time b - time a + 1)) 3.5 / 3.5
              * (maxWidth options * 1.5 - minWidth options * 0.5)"
    by (simp add: targetWidth_def Let_def v)
  ultimately show ?thesis using assms v by simp
qed

theorem engine_velocity_witness:
  "time (ex_sample 0) \<le> time (ex_sample 1)
   \<and> drawCurve_velocity (ex_sample 0) (ex_sample 1) = 1
   \<and> getDistance (ex_sample 0) (ex_sample 1) / max 1 (time (ex_sample 1) - time (ex_sample 0)) = 17 / 16
   \<and> targetWidth (ex_options Pen 1 3) (ex_sample 0) (ex_sample 1) = 11 / 5"
proof -
  have t: "time (ex_sample 0) \<le> time (ex_sample 1)" by (simp add: ex_sample_def)
  have d: "getDistance (ex_sample 0) (ex_sample 1) = 17"
    by (simp add: getDistance_horizontal ex_sample_def)
  have o: "tool (ex_options Pen 1 3) = Pen \<and> pointerType (ex_sample 1) \<noteq> Some ''pen''"
    by (simp add: ex_options_def ex_sample_def)
  from engine_velocity[OF t, of "ex_options Pen 1 3"] o d t show ?thesis
    by (simp add: ex_sample_def ex_options_def)
qed

theorem velocity_floor_counterexample:
  "drawCurve_velocity (ex_sample 0) (ex_sample 1)
     \<noteq> getDistance (ex_sample 0) (ex_sample 1) / max 1 (time (ex_sample 1) - time (ex_sample 0))
   \<and> time (ex_sample 1) - time (ex_sample 1) = 0
   \<and> getVelocity ((ex_sample 1)\<lparr>x := 0\<rparr>) (ex_sample 1)
     \<noteq> getDistance ((ex_sample 1)\<lparr>x := 0\<rparr>) (ex_sample 1) / max 1 (time (ex_sample 1) - time (ex_sample 1))"
  by (simp add: drawCurve_velocity_def getVelocity_def getDistance_horizontal ex_sample_def)

text \<open>
  C5, as amended. The session has one active stroke, and in every reachable state a
  non-empty active stroke implies the drawing flag, so the state is never not-drawing with
  a non-empty active stroke. The state is drawing with an empty active stroke exactly when
  a clear was requested while drawing and no pointer event (down, move, up or leave) has
  come since; so in every session whose clear requests all come while not drawing, the
  drawing flag is true if and only if the active stroke is non-empty.
\<close>

theorem drawing_flag_characterised:
  "(currentStroke (run evs (initial options)) \<noteq> [] \<longrightarrow> isDrawing (run evs (initial options)))
   \<and> ((isDrawing (run evs (initial options)) \<and> currentStroke (run evs (initial options)) = [])
        \<longleftrightarrow> (\<exists>pre post. evs = pre @ Clear # post \<and> isDrawing (run pre (initial options))
                         \<and> (\<forall>e \<in> set post. \<not> isPointerEvent e)))
   \<and> ((\<forall>pre post. evs = pre @ Clear # post \<longrightarrow> \<not> isDrawing (run pre (initial options)))
        \<longrightarrow> (isDrawing (run evs (initial options))
              \<longleftrightarrow> currentStroke (run evs (initial options)) \<noteq> []))"
proof -
  have i: "capture_inv (initial options)" by (simp add: capture_inv_def initial_def)
  then have "capture_inv (run evs (initial options))" by (rule capture_inv_run)
  then have a: "currentStroke (run evs (initial options)) \<noteq> [] \<longrightarrow> isDrawing (run evs (initial options))"
    unfolding capture_inv_def by blast
  have z: "isDrawing (initial options) \<longleftrightarrow> currentStroke (initial options) \<noteq> []"
    by (simp add: initial_def)
  have b1: "\<exists>pre post. evs = pre @ Clear # post \<and> isDrawing (run pre (initial options))
                         \<and> (\<forall>e \<in> set post. \<not> isPointerEvent e)"
    if "isDrawing (run evs (initial options))" "currentStroke (run evs (initial options)) = []"
    using drawing_empty_cause[OF i z that] .
  have b2: "isDrawing (run evs (initial options)) \<and> currentStroke (run evs (initial options)) = []"
    if "evs = pre @ Clear # post" "isDrawing (run pre (initial options))"
       "\<forall>e \<in> set post. \<not> isPointerEvent e" for pre post
  proof -
    have r: "run evs (initial options) = run post (clear (run pre (initial options)))"
      unfolding that(1) by (simp add: run_append)
    have "isDrawing (clear (run pre (initial options)))" "currentStroke (clear (run pre (initial options))) = []"
      using that(2) by (simp_all add: clear_def)
    with quiet_events_keep_drawing[OF that(3)] quiet_events_keep_empty[OF that(3)]
    show ?thesis unfolding r by simp
  qed
  from a b1 b2 show ?thesis by blast
qed

theorem drawing_flag_characterised_witness:
  "currentStroke (run [PointerDown (ex_options Pen 1 3) (ex_sample 0), Clear, PointerMove (ex_options Pen 1 3) (ex_sample 1)]
      (initial (ex_options Pen 1 3))) \<noteq> []
   \<and> isDrawing (run [PointerDown (ex_options Pen 1 3) (ex_sample 0), Clear, PointerMove (ex_options Pen 1 3) (ex_sample 1)]
      (initial (ex_options Pen 1 3)))
   \<and> [PointerDown (ex_options Pen 1 3) (ex_sample 0), Clear, Download]
       = [PointerDown (ex_options Pen 1 3) (ex_sample 0)] @ Clear # [Download]
   \<and> isDrawing (run [PointerDown (ex_options Pen 1 3) (ex_sample 0)] (initial (ex_options Pen 1 3)))
   \<and> \<not> isPointerEvent Download
   \<and> isDrawing (run [PointerDown (ex_options Pen 1 3) (ex_sample 0), Clear, Download] (initial (ex_options Pen 1 3)))
   \<and> currentStroke (run [PointerDown (ex_options Pen 1 3) (ex_sample 0), Clear, Download] (initial (ex_options Pen 1 3))) = []
   \<and> \<not> isDrawing (run [Clear] (initial (ex_options Pen 1 3)))"
proof -
  have a: "currentStroke (run [PointerDown (ex_options Pen 1 3) (ex_sample 0), Clear, PointerMove (ex_options Pen 1 3) (ex_sample 1)]
      (initial (ex_options Pen 1 3))) \<noteq> []"
    by (simp add: handlePointerDown_def handlePointerMove_def Let_def clear_def)
  have b: "[PointerDown (ex_options Pen 1 3) (ex_sample 0), Clear, Download]
       = [PointerDown (ex_options Pen 1 3) (ex_sample 0)] @ Clear # [Download]
     \<and> isDrawing (run [PointerDown (ex_options Pen 1 3) (ex_sample 0)] (initial (ex_options Pen 1 3)))
     \<and> (\<forall>e \<in> set [Download]. \<not> isPointerEvent e)"
    by (simp add: handlePointerDown_def)
  from drawing_flag_characterised[of "[PointerDown (ex_options Pen 1 3) (ex_sample 0), Clear, PointerMove (ex_options Pen 1 3) (ex_sample 1)]" "ex_options Pen 1 3"] a
  have c: "isDrawing (run [PointerDown (ex_options Pen 1 3) (ex_sample 0), Clear, PointerMove (ex_options Pen 1 3) (ex_sample 1)]
      (initial (ex_options Pen 1 3)))" by blast
  from drawing_flag_characterised[of "[PointerDown (ex_options Pen 1 3) (ex_sample 0), Clear, Download]" "ex_options Pen 1 3"] b
  have d: "isDrawing (run [PointerDown (ex_options Pen 1 3) (ex_sample 0), Clear, Download] (initial (ex_options Pen 1 3)))
   \<and> currentStroke (run [PointerDown (ex_options Pen 1 3) (ex_sample 0), Clear, Download] (initial (ex_options Pen 1 3))) = []"
    by blast
  have e: "\<forall>pre post. [Clear] = pre @ Clear # post \<longrightarrow> \<not> isDrawing (run pre (initial (ex_options Pen 1 3)))"
    by (auto simp: Cons_eq_append_conv initial_def)
  have "currentStroke (run [Clear] (initial (ex_options Pen 1 3))) = []" by (simp add: clear_def)
  with drawing_flag_characterised[of "[Clear]" "ex_options Pen 1 3"] e
  have f: "\<not> isDrawing (run [Clear] (initial (ex_options Pen 1 3)))" by blast
  from a b c d f show ?thesis by simp
qed

theorem drawing_with_empty_stroke_counterexample:
  "isDrawing (run [PointerDown (ex_options Pen 1 3) (ex_sample 0), Clear] (initial (ex_options Pen 1 3)))
   \<and> currentStroke (run [PointerDown (ex_options Pen 1 3) (ex_sample 0), Clear] (initial (ex_options Pen 1 3))) = []"
  by (simp add: handlePointerDown_def clear_def)

text \<open>
  C6. In every reachable state with a previous accepted point, and with a positive
  streamline, a pointer move appends the raw sample with both coordinates replaced by the
  interpolation between the previous accepted point and the raw position at
  \<open>1 - effectiveStreamline\<close>, the streamline being halved exactly for the pencil; time,
  pressure and pointer type are the raw sample's. The stored sample becomes the previous
  accepted point, and a stored coordinate is the raw one only where the previous accepted
  point already had it.
\<close>

theorem stabilizer_stores_filtered_sample:
  assumes "s = run evs (initial options0)"
    and "lastPoint s = Some lp"
    and "0 < streamline options"
    and "eff = (if tool options = Pencil then streamline options * 0.5 else streamline options)"
    and "stored = raw\<lparr> x := lerp (x lp) (x raw) (1 - eff), y := lerp (y lp) (y raw) (1 - eff) \<rparr>"
  shows "currentStroke (handlePointerMove options raw s) = currentStroke s @ [stored]
     \<and> lastPoint (handlePointerMove options raw s) = Some stored
     \<and> time stored = time raw \<and> pressure stored = pressure raw
     \<and> pointerType stored = pointerType raw
     \<and> (x stored = x raw \<longleftrightarrow> x lp = x raw)
     \<and> (y stored = y raw \<longleftrightarrow> y lp = y raw)"
proof -
  have "capture_inv (initial options0)" by (simp add: capture_inv_def initial_def)
  then have "capture_inv s" unfolding assms(1) by (rule capture_inv_run)
  with assms(2) have d: "isDrawing s" by (simp add: capture_inv_def)
  have e: "0 < eff" using assms(3,4) by simp
  have l: "lerp u v (1 - eff) = v \<longleftrightarrow> u = v" for u v
  proof -
    have "lerp u v (1 - eff) - v = eff * (u - v)" by (simp add: lerp_def algebra_simps)
    then show ?thesis using e
      by (metis eq_iff_diff_eq_0 mult_eq_0_iff less_irrefl)
  qed
  show ?thesis using d e assms(2,3,4) l
    by (simp add: handlePointerMove_def Let_def assms(5))
qed

theorem stabilizer_stores_filtered_sample_witness:
  "lastPoint (run [PointerDown (ex_options Pencil 1 3) (ex_sample 0)] (initial (ex_options Pencil 1 3)))
     = Some (ex_sample 0)
   \<and> 0 < streamline ((ex_options Pencil 1 3)\<lparr>streamline := 0.6\<rparr>)
   \<and> currentStroke (handlePointerMove ((ex_options Pencil 1 3)\<lparr>streamline := 0.6\<rparr>) (ex_sample 1)
        (run [PointerDown (ex_options Pencil 1 3) (ex_sample 0)] (initial (ex_options Pencil 1 3))))
     = [ex_sample 0, (ex_sample 1)\<lparr>x := 119 / 10\<rparr>]"
proof -
  have a: "lastPoint (run [PointerDown (ex_options Pencil 1 3) (ex_sample 0)] (initial (ex_options Pencil 1 3)))
     = Some (ex_sample 0)"
    by (simp add: handlePointerDown_def)
  have b: "0 < streamline ((ex_options Pencil 1 3)\<lparr>streamline := 0.6\<rparr>)" by simp
  have c: "currentStroke (run [PointerDown (ex_options Pencil 1 3) (ex_sample 0)] (initial (ex_options Pencil 1 3))) = [ex_sample 0]"
    by (simp add: handlePointerDown_def)
  from stabilizer_stores_filtered_sample[OF refl a b refl refl, of "ex_sample 1"] a b c
  show ?thesis by (simp add: ex_options_def ex_sample_def lerp_def)
qed

text \<open>
  C7. With the pencil tool the target width is \<open>max 0.5 (maxWidth * 0.4)\<close> for every
  pair of samples, the blend factor is 0.2, and every painted segment has the blended
  width \<open>lastWidth * 0.2 + target * 0.8\<close> and a stroke style whose components are
  parsed from the configured colour and whose alpha is 0.7; for a colour made of
  \<open>#\<close> and six hexadecimal digits the components are the values of the three digit
  pairs.
\<close>

theorem pencil_width_and_colour:
  assumes "tool options = Pencil"
    and "drawCurve options lw pts = Some (seg, w)"
  shows "targetWidth options p1 p2 = max 0.5 (maxWidth options * 0.4)
     \<and> smoothingFactor options = 0.2
     \<and> lineWidth seg = lw * 0.2 + max 0.5 (maxWidth options * 0.4) * (1 - 0.2)
     \<and> w = lineWidth seg
     \<and> strokeStyle seg = Rgba (parseInt16 (slice 1 3 (color options)))
                               (parseInt16 (slice 3 5 (color options)))
                               (parseInt16 (slice 5 7 (color options))) 0.7
     \<and> (color options = [CHR ''#'', r1, r2, g1, g2, b1, b2]
          \<and> hexDigit r1 = Some vr1 \<and> hexDigit r2 = Some vr2
          \<and> hexDigit g1 = Some vg1 \<and> hexDigit g2 = Some vg2
          \<and> hexDigit b1 = Some vb1 \<and> hexDigit b2 = Some vb2
          \<longrightarrow> strokeStyle seg = Rgba (Some (int (16 * vr1 + vr2))) (Some (int (16 * vg1 + vg2)))
                                      (Some (int (16 * vb1 + vb2))) 0.7)"
  using assms
  by (auto simp: targetWidth_def smoothingFactor_def drawCurve_def Let_def strokeStyleOf_def
      alphaOf_def slice_def parseInt16_two split: if_splits)

theorem pencil_width_and_colour_witness:
  "tool (ex_options Pencil 1 3) = Pencil
   \<and> drawCurve (ex_options Pencil 1 3) (3 / 2) [ex_sample 0, ex_sample 1, ex_sample 2]
       = Some (\<lparr> lineWidth = 63 / 50, strokeStyle = Rgba (Some 26) (Some 43) (Some 60) (7 / 10),
                  moveTo = (17 / 2, 0), control = (17, 0), curveEnd = (51 / 2, 0) \<rparr>, 63 / 50)
   \<and> targetWidth (ex_options Pencil 1 3) (ex_sample 0) (ex_sample 1) = 6 / 5"
proof -
  have a: "tool (ex_options Pencil 1 3) = Pencil" by (simp add: ex_options_def)
  have b: "drawCurve (ex_options Pencil 1 3) (3 / 2) [ex_sample 0, ex_sample 1, ex_sample 2]
       = Some (\<lparr> lineWidth = 63 / 50, strokeStyle = Rgba (Some 26) (Some 43) (Some 60) (7 / 10),
                  moveTo = (17 / 2, 0), control = (17, 0), curveEnd = (51 / 2, 0) \<rparr>, 63 / 50)"
    by (simp add: drawCurve_def Let_def ex_options_def ex_sample_def targetWidth_def
        smoothingFactor_def strokeStyleOf_def alphaOf_def slice_def parseInt16_def hexDigit_def
        isWhiteSpace_def getMidPoint_def)
  from pencil_width_and_colour[OF a b, of "ex_sample 0" "ex_sample 1"] a b
  show ?thesis by (simp add: ex_options_def)
qed

text \<open>
  C8. The vector export emits, in order, one path for each stored stroke of at least two
  samples and none for a shorter stroke. The path data of a stroke of \<open>N\<close> samples is one
  move-to at the first sample followed by one line-to for each later sample in order,
  \<open>N\<close> commands in all, with the coordinates to two decimals; the path carries the configured
  colour, and stroke width \<open>maxWidth * 0.5\<close> with opacity 0.7 for the pencil, stroke width
  \<open>maxWidth\<close> with opacity 1 otherwise.
\<close>

theorem svg_paths:
  "paths (generateSVG options dpr strokeList w h)
     = map (\<lambda>s. \<lparr> pathData = CmdM (toFixed2 (x (hd s))) (toFixed2 (y (hd s)))
                              # map (\<lambda>p. CmdL (toFixed2 (x p)) (toFixed2 (y p))) (tl s),
                   strokeColor = color options,
                   strokeOpacity = (if tool options = Pencil then 0.7 else 1),
                   strokeWidth = (if tool options = Pencil then maxWidth options * 0.5
                                  else maxWidth options) \<rparr>)
           (filter (\<lambda>s. 2 \<le> length s) strokeList)
   \<and> map (\<lambda>p. length (pathData p)) (paths (generateSVG options dpr strokeList w h))
     = map length (filter (\<lambda>s. 2 \<le> length s) strokeList)"
proof -
  have p: "strokePath options s
      = \<lparr> pathData = CmdM (toFixed2 (x (hd s))) (toFixed2 (y (hd s)))
                              # map (\<lambda>p. CmdL (toFixed2 (x p)) (toFixed2 (y p))) (tl s),
                   strokeColor = color options,
                   strokeOpacity = (if tool options = Pencil then 0.7 else 1),
                   strokeWidth = (if tool options = Pencil then maxWidth options * 0.5
                                  else maxWidth options) \<rparr>"
    if "2 \<le> length s" for s
    using strokePath_data[OF that, of options] by (simp add: strokePath_def Let_def)
  have g: "paths (generateSVG options dpr strokeList w h)
      = map (strokePath options) (filter (\<lambda>s. 2 \<le> length s) strokeList)"
    by (simp add: generateSVG_def Let_def foldl_paths)
  have l: "length (pathData (strokePath options s)) = length s" if "2 \<le> length s" for s
    using strokePath_data[OF that, of options] that by simp
  have "map (\<lambda>p. length (pathData p)) (paths (generateSVG options dpr strokeList w h))
     = map length (filter (\<lambda>s. 2 \<le> length s) strokeList)"
    unfolding g by (simp add: l)
  moreover have "paths (generateSVG options dpr strokeList w h)
     = map (\<lambda>s. \<lparr> pathData = CmdM (toFixed2 (x (hd s))) (toFixed2 (y (hd s)))
                              # map (\<lambda>p. CmdL (toFixed2 (x p)) (toFixed2 (y p))) (tl s),
                   strokeColor = color options,
                   strokeOpacity = (if tool options = Pencil then 0.7 else 1),
                   strokeWidth = (if tool options = Pencil then maxWidth options * 0.5
                                  else maxWidth options) \<rparr>)
           (filter (\<lambda>s. 2 \<le> length s) strokeList)"
    unfolding g by (rule map_cong) (simp_all add: p)
  ultimately show ?thesis by simp
qed

theorem svg_paths_witness:
  "paths (generateSVG (ex_options Pencil 1 3) 2 [[ex_sample 0], [ex_sample 0, ex_sample 1, ex_sample 2], []]
       800 400)
     = [\<lparr> pathData = [CmdM 0 0, CmdL 17 0, CmdL 34 0], strokeColor = ''#1a2B3c'',
           strokeOpacity = 7 / 10, strokeWidth = 3 / 2 \<rparr>]"
  using svg_paths[of "ex_options Pencil 1 3" 2 "[[ex_sample 0], [ex_sample 0, ex_sample 1, ex_sample 2], []]"
      800 400]
  by (simp add: ex_options_def ex_sample_def toFixed2_def)

text \<open>
  C9. A pressure of exactly 0 is read as the default 0.5 wherever a pressure is read, as
  an absent pressure is, and any other pressure is read as it is. With a pen pointer at
  pressure 0 or absent the pen tool's target width is
  \<open>(minWidth + (maxWidth - minWidth) * 0.5) * 1.1\<close>, the calligraphy tool's is
  \<open>minWidth + (maxWidth * 1.5 - minWidth) * 0.5\<^sup>2\<close>, and the initial width guess of both
  tools is \<open>minWidth + (maxWidth - minWidth) * 0.5\<close>; the midpoint's pressure blends 0.5
  for either sample whose pressure is 0 or absent. So the target width, the initial width,
  the midpoint and every painted segment are the same for a sample with pressure 0 and for
  that sample with the pressure absent.
\<close>

theorem zero_pressure_is_default:
  "pressureOr (Some 0) = 0.5 \<and> pressureOr None = 0.5
   \<and> (v \<noteq> 0 \<longrightarrow> pressureOr (Some v) = v)
   \<and> targetWidth (options\<lparr> tool := Pen \<rparr>) p1 (p2\<lparr> pointerType := Some ''pen'', pressure := Some 0 \<rparr>)
     = (minWidth options + (maxWidth options - minWidth options) * 0.5) * 1.1
   \<and> targetWidth (options\<lparr> tool := Pen \<rparr>) p1 (p2\<lparr> pointerType := Some ''pen'', pressure := None \<rparr>)
     = (minWidth options + (maxWidth options - minWidth options) * 0.5) * 1.1
   \<and> targetWidth (options\<lparr> tool := Calligraphy \<rparr>) p1 (p2\<lparr> pointerType := Some ''pen'', pressure := Some 0 \<rparr>)
     = minWidth options + (maxWidth options * 1.5 - minWidth options) * 0.5\<^sup>2
   \<and> targetWidth (options\<lparr> tool := Calligraphy \<rparr>) p1 (p2\<lparr> pointerType := Some ''pen'', pressure := None \<rparr>)
     = minWidth options + (maxWidth options * 1.5 - minWidth options) * 0.5\<^sup>2
   \<and> lastWidth (handlePointerDown (options\<lparr> tool := Pen \<rparr>)
        (p\<lparr> pointerType := Some ''pen'', pressure := Some 0 \<rparr>) s)
     = minWidth options + (maxWidth options - minWidth options) * 0.5
   \<and> lastWidth (handlePointerDown (options\<lparr> tool := Pen \<rparr>)
        (p\<lparr> pointerType := Some ''pen'', pressure := None \<rparr>) s)
     = minWidth options + (maxWidth options - minWidth options) * 0.5
   \<and> lastWidth (handlePointerDown (options\<lparr> tool := Calligraphy \<rparr>)
        (p\<lparr> pointerType := Some ''pen'', pressure := Some 0 \<rparr>) s)
     = minWidth options + (maxWidth options - minWidth options) * 0.5
   \<and> lastWidth (handlePointerDown (options\<lparr> tool := Calligraphy \<rparr>)
        (p\<lparr> pointerType := Some ''pen'', pressure := None \<rparr>) s)
     = minWidth options + (maxWidth options - minWidth options) * 0.5
   \<and> pressure (getMidPoint (p1\<lparr> pressure := Some 0 \<rparr>) p2)
     = Some (0.5 + (pressureOr (pressure p2) - 0.5) / 2)
   \<and> pressure (getMidPoint (p1\<lparr> pressure := None \<rparr>) p2)
     = Some (0.5 + (pressureOr (pressure p2) - 0.5) / 2)
   \<and> pressure (getMidPoint p1 (p2\<lparr> pressure := Some 0 \<rparr>))
     = Some (pressureOr (pressure p1) + (0.5 - pressureOr (pressure p1)) / 2)
   \<and> pressure (getMidPoint p1 (p2\<lparr> pressure := None \<rparr>))
     = Some (pressureOr (pressure p1) + (0.5 - pressureOr (pressure p1)) / 2)
   \<and> getMidPoint (p1\<lparr> pressure := Some 0 \<rparr>) p2 = getMidPoint (p1\<lparr> pressure := None \<rparr>) p2
   \<and> getMidPoint p1 (p2\<lparr> pressure := Some 0 \<rparr>) = getMidPoint p1 (p2\<lparr> pressure := None \<rparr>)
   \<and> targetWidth options p1 (p2\<lparr> pressure := Some 0 \<rparr>)
     = targetWidth options p1 (p2\<lparr> pressure := None \<rparr>)
   \<and> lastWidth (handlePointerDown options (p\<lparr> pressure := Some 0 \<rparr>) s)
     = lastWidth (handlePointerDown options (p\<lparr> pressure := None \<rparr>) s)
   \<and> drawCurve options lw (map absentIfZero pts) = drawCurve options lw pts"
proof -
  have d: "getDistance (absentIfZero a) (absentIfZero b) = getDistance a b" for a b
    by (simp add: getDistance_def absentIfZero_def)
  have t: "targetWidth options (absentIfZero a) (absentIfZero b) = targetWidth options a b" for a b
    unfolding targetWidth_def drawCurve_velocity_def d
    by (simp add: absentIfZero_def pressureOr_def)
  have m: "x (getMidPoint (absentIfZero a) (absentIfZero b)) = x (getMidPoint a b)
         \<and> y (getMidPoint (absentIfZero a) (absentIfZero b)) = y (getMidPoint a b)" for a b
    by (simp add: getMidPoint_def absentIfZero_def)
  have x2: "x (absentIfZero a) = x a" "y (absentIfZero a) = y a" for a
    by (simp_all add: absentIfZero_def)
  have c: "drawCurve options lw (map absentIfZero pts) = drawCurve options lw pts"
    by (simp add: drawCurve_def Let_def t m x2)
  have pr: "pressureOr (Some 0) = 0.5" "pressureOr None = 0.5" "v \<noteq> 0 \<longrightarrow> pressureOr (Some v) = v"
    by (simp_all add: pressureOr_def)
  have tw: "targetWidth (options\<lparr> tool := Pen \<rparr>) p1 (p2\<lparr> pointerType := Some ''pen'', pressure := Some 0 \<rparr>)
     = (minWidth options + (maxWidth options - minWidth options) * 0.5) * 1.1"
    "targetWidth (options\<lparr> tool := Pen \<rparr>) p1 (p2\<lparr> pointerType := Some ''pen'', pressure := None \<rparr>)
     = (minWidth options + (maxWidth options - minWidth options) * 0.5) * 1.1"
    "targetWidth (options\<lparr> tool := Calligraphy \<rparr>) p1 (p2\<lparr> pointerType := Some ''pen'', pressure := Some 0 \<rparr>)
     = minWidth options + (maxWidth options * 1.5 - minWidth options) * 0.5\<^sup>2"
    "targetWidth (options\<lparr> tool := Calligraphy \<rparr>) p1 (p2\<lparr> pointerType := Some ''pen'', pressure := None \<rparr>)
     = minWidth options + (maxWidth options * 1.5 - minWidth options) * 0.5\<^sup>2"
    "targetWidth options p1 (p2\<lparr> pressure := Some 0 \<rparr>)
     = targetWidth options p1 (p2\<lparr> pressure := None \<rparr>)"
    by (simp_all add: targetWidth_def Let_def pr drawCurve_velocity_def getDistance_def)
  have iw: "lastWidth (handlePointerDown (options\<lparr> tool := Pen \<rparr>)
        (p\<lparr> pointerType := Some ''pen'', pressure := Some 0 \<rparr>) s)
     = minWidth options + (maxWidth options - minWidth options) * 0.5"
    "lastWidth (handlePointerDown (options\<lparr> tool := Pen \<rparr>)
        (p\<lparr> pointerType := Some ''pen'', pressure := None \<rparr>) s)
     = minWidth options + (maxWidth options - minWidth options) * 0.5"
    "lastWidth (handlePointerDown (options\<lparr> tool := Calligraphy \<rparr>)
        (p\<lparr> pointerType := Some ''pen'', pressure := Some 0 \<rparr>) s)
     = minWidth options + (maxWidth options - minWidth options) * 0.5"
    "lastWidth (handlePointerDown (options\<lparr> tool := Calligraphy \<rparr>)
        (p\<lparr> pointerType := Some ''pen'', pressure := None \<rparr>) s)
     = minWidth options + (maxWidth options - minWidth options) * 0.5"
    "lastWidth (handlePointerDown options (p\<lparr> pressure := Some 0 \<rparr>) s)
     = lastWidth (handlePointerDown options (p\<lparr> pressure := None \<rparr>) s)"
    by (simp_all add: handlePointerDown_def pr)
  have mp: "pressure (getMidPoint (p1\<lparr> pressure := Some 0 \<rparr>) p2)
     = Some (0.5 + (pressureOr (pressure p2) - 0.5) / 2)"
    "pressure (getMidPoint (p1\<lparr> pressure := None \<rparr>) p2)
     = Some (0.5 + (pressureOr (pressure p2) - 0.5) / 2)"
    "pressure (getMidPoint p1 (p2\<lparr> pressure := Some 0 \<rparr>))
     = Some (pressureOr (pressure p1) + (0.5 - pressureOr (pressure p1)) / 2)"
    "pressure (getMidPoint p1 (p2\<lparr> pressure := None \<rparr>))
     = Some (pressureOr (pressure p1) + (0.5 - pressureOr (pressure p1)) / 2)"
    "getMidPoint (p1\<lparr> pressure := Some 0 \<rparr>) p2 = getMidPoint (p1\<lparr> pressure := None \<rparr>) p2"
    "getMidPoint p1 (p2\<lparr> pressure := Some 0 \<rparr>) = getMidPoint p1 (p2\<lparr> pressure := None \<rparr>)"
    by (simp_all add: getMidPoint_def pr)
  from pr tw iw mp c show ?thesis by blast
qed


theorem zero_pressure_is_default_witness:
  "(1 :: real) \<noteq> 0 \<and> pressureOr (Some 1) = 1
   \<and> targetWidth (ex_options Pen 1 3) (ex_sample 0)
       \<lparr> x = 17, y = 0, pressure = Some 0, time = 16, pointerType = Some ''pen'' \<rparr>
     = 11 / 5
   \<and> targetWidth (ex_options Pen 1 3) (ex_sample 0)
       \<lparr> x = 17, y = 0, pressure = None, time = 16, pointerType = Some ''pen'' \<rparr>
     = 11 / 5
   \<and> targetWidth (ex_options Calligraphy 1 3) (ex_sample 0)
       \<lparr> x = 17, y = 0, pressure = Some 0, time = 16, pointerType = Some ''pen'' \<rparr>
     = 15 / 8
   \<and> lastWidth (handlePointerDown (ex_options Pen 1 3)
        \<lparr> x = 17, y = 0, pressure = Some 0, time = 16, pointerType = Some ''pen'' \<rparr>
        (initial (ex_options Pen 1 3)))
     = 2
   \<and> pressure (getMidPoint
        \<lparr> x = 17, y = 0, pressure = Some 0, time = 16, pointerType = Some ''pen'' \<rparr>
        \<lparr> x = 17, y = 0, pressure = Some 1, time = 16, pointerType = Some ''pen'' \<rparr>)
     = Some (3 / 4)"
proof -
  define p2 where "p2 = \<lparr> x = 17, y = 0, pressure = Some (1::real), time = 16, pointerType = Some ''pen'' \<rparr>"
  have u: "p2\<lparr> pointerType := Some ''pen'', pressure := Some 0 \<rparr>
             = \<lparr> x = 17, y = 0, pressure = Some 0, time = 16, pointerType = Some ''pen'' \<rparr>"
    "p2\<lparr> pointerType := Some ''pen'', pressure := None \<rparr>
             = \<lparr> x = 17, y = 0, pressure = None, time = 16, pointerType = Some ''pen'' \<rparr>"
    "p2\<lparr> pressure := Some 0 \<rparr>
             = \<lparr> x = 17, y = 0, pressure = Some 0, time = 16, pointerType = Some ''pen'' \<rparr>"
    "(ex_options Pen 1 3)\<lparr> tool := Pen \<rparr> = ex_options Pen 1 3"
    "(ex_options Pen 1 3)\<lparr> tool := Calligraphy \<rparr> = ex_options Calligraphy 1 3"
    "minWidth (ex_options Pen 1 3) = 1" "maxWidth (ex_options Pen 1 3) = 3"
    "pressure p2 = Some 1"
    by (simp_all add: p2_def ex_options_def)
  have n: "(1 :: real) \<noteq> 0" by simp
  from zero_pressure_is_default[where v = 1 and options = "ex_options Pen 1 3" and ?p1.0 = "ex_sample 0"
      and ?p2.0 = p2 and p = p2 and s = "initial (ex_options Pen 1 3)" and lw = 2 and pts = "[]"] n
  have "pressureOr (Some 1) = 1" by blast
  with zero_pressure_is_default[where v = 1 and options = "ex_options Pen 1 3" and ?p1.0 = "ex_sample 0"
      and ?p2.0 = p2 and p = p2 and s = "initial (ex_options Pen 1 3)" and lw = 2 and pts = "[]"]
    zero_pressure_is_default[where v = 1 and options = "ex_options Pen 1 3" and ?p1.0 = p2
      and ?p2.0 = p2 and p = p2 and s = "initial (ex_options Pen 1 3)" and lw = 2 and pts = "[]"]
  show ?thesis unfolding u p2_def[symmetric] by (simp add: power2_eq_square)
qed

text \<open>
  C10. Two calls of the renderer on point windows that agree on the two older samples, on
  the width memory and on the options, and differ in the newest sample in any way, paint
  with the same line width, the same stroke style, the same start point and the same
  control point, and leave the same width memory; the newest sample decides the curve's
  end point only, the midpoint of the middle and the newest sample.
\<close>

theorem newest_sample_only_moves_endpoint:
  "map_option (lineWidth \<circ> fst) (drawCurve options lw (pre @ [p1, p2, p3]))
     = map_option (lineWidth \<circ> fst) (drawCurve options lw (pre' @ [p1, p2, p3']))
   \<and> map_option (strokeStyle \<circ> fst) (drawCurve options lw (pre @ [p1, p2, p3]))
     = map_option (strokeStyle \<circ> fst) (drawCurve options lw (pre' @ [p1, p2, p3']))
   \<and> map_option (moveTo \<circ> fst) (drawCurve options lw (pre @ [p1, p2, p3]))
     = map_option (moveTo \<circ> fst) (drawCurve options lw (pre' @ [p1, p2, p3']))
   \<and> map_option (control \<circ> fst) (drawCurve options lw (pre @ [p1, p2, p3]))
     = map_option (control \<circ> fst) (drawCurve options lw (pre' @ [p1, p2, p3']))
   \<and> map_option snd (drawCurve options lw (pre @ [p1, p2, p3]))
     = map_option snd (drawCurve options lw (pre' @ [p1, p2, p3']))
   \<and> map_option (lineWidth \<circ> fst) (drawCurve options lw (pre @ [p1, p2, p3]))
     = Some (lw * smoothingFactor options + targetWidth options p1 p2 * (1 - smoothingFactor options))
   \<and> map_option (curveEnd \<circ> fst) (drawCurve options lw (pre @ [p1, p2, p3]))
     = Some (x (getMidPoint p2 p3), y (getMidPoint p2 p3))"
  by (simp add: drawCurve_def Let_def nth_append)

theorem newest_sample_only_moves_endpoint_witness:
  "map_option (lineWidth \<circ> fst)
       (drawCurve (ex_options Pen 1 3) 2 ([] @ [ex_sample 0, ex_sample 1, ex_sample 2]))
     = Some (52 / 25)
   \<and> map_option (lineWidth \<circ> fst)
       (drawCurve (ex_options Pen 1 3) 2
          ([ex_sample 0] @ [ex_sample 0, ex_sample 1,
             \<lparr> x = 0, y = 100, pressure = Some 1, time = 5000, pointerType = Some ''pen'' \<rparr>]))
     = Some (52 / 25)"
proof -
  have d: "getDistance (ex_sample 0) (ex_sample 1) = 17"
    by (simp add: getDistance_horizontal ex_sample_def)
  have "targetWidth (ex_options Pen 1 3) (ex_sample 0) (ex_sample 1) = 11 / 5"
    by (simp add: targetWidth_def drawCurve_velocity_def d Let_def) (simp add: ex_options_def ex_sample_def)
  then have w: "2 * smoothingFactor (ex_options Pen 1 3)
      + targetWidth (ex_options Pen 1 3) (ex_sample 0) (ex_sample 1) * (1 - smoothingFactor (ex_options Pen 1 3))
      = 52 / 25"
    by (simp add: smoothingFactor_def ex_options_def)
  from newest_sample_only_moves_endpoint[of "ex_options Pen 1 3" 2 "[]" "ex_sample 0" "ex_sample 1"
      "ex_sample 2" "[ex_sample 0]"
      "\<lparr> x = 0, y = 100, pressure = Some 1, time = 5000, pointerType = Some ''pen'' \<rparr>"]
  show ?thesis unfolding w by metis
qed

end
